theory Spec2Isabelle
  imports
    Complex_Main
    "HOL-Library.Sublist"
    "HOL-Library.Option_ord"
    "HOL-Library.Char_ord"
    "HOL-Library.List_Lexorder"
    "HOL-Library.Multiset"
begin

section \<open>The logft ingestion script \<^verbatim>\<open>experiments/08_ingest_logft.py\<close>\<close>

text \<open>
  The script fills the \<^verbatim>\<open>logft\<close> column of a table of nuclides from candidate rows
  and hand-written overrides, and writes an audit of every decision.  The embedding
  follows the script function by function.

  Conventions.
  \<^item> A float that is not NaN is a \<^typ>\<open>real\<close>; a float cell that may be NaN is a
    \<^typ>\<open>real option\<close> with \<open>None\<close> for NaN.  Rounding and the infinities are outside the
    model.
  \<^item> A Python \<^verbatim>\<open>str\<close> is a \<^typ>\<open>string\<close>; the characters are taken to be ASCII.
  \<^item> An exception is a value \<open>Inl e\<close> of a sum type.
\<close>

subsection \<open>Strings\<close>

text \<open>\<^verbatim>\<open>str.strip()\<close> removes the white space of both ends; for ASCII that is the
  characters 9 to 13, 28 to 31 and 32.\<close>

definition is_space :: "char \<Rightarrow> bool" where
  "is_space c = (let n = (of_char c :: nat) in (9 \<le> n \<and> n \<le> 13) \<or> (28 \<le> n \<and> n \<le> 32))"

definition strip :: "string \<Rightarrow> string" where
  "strip s = rev (dropWhile is_space (rev (dropWhile is_space s)))"

text \<open>\<^verbatim>\<open>str.lower()\<close> on ASCII: the letters A to Z move to a to z.\<close>

definition lower_char :: "char \<Rightarrow> char" where
  "lower_char c =
     (case map_of (zip ''ABCDEFGHIJKLMNOPQRSTUVWXYZ'' ''abcdefghijklmnopqrstuvwxyz'') c of
        Some d \<Rightarrow> d
      | None \<Rightarrow> c)"

definition lower :: "string \<Rightarrow> string" where
  "lower s = map lower_char s"

text \<open>\<^verbatim>\<open>b in c\<close> for two strings: \<open>b\<close> occurs in \<open>c\<close> as a contiguous piece.\<close>

fun contains :: "string \<Rightarrow> string \<Rightarrow> bool" where
  "contains b [] = (b = [])"
| "contains b (x # xs) = (prefix b (x # xs) \<or> contains b xs)"

subsection \<open>Records of the data model\<close>

text \<open>A normalised candidate row: the columns the resolution reads.\<close>

record candidate =
  c_Z :: int
  c_A :: int
  c_logft :: real
  c_mode :: string
  c_br_pct :: "real option"
  c_source :: string

text \<open>A normalised override row.\<close>

record override =
  o_Z :: int
  o_A :: int
  o_logft :: real
  o_mode :: string
  o_source :: string
  o_note :: string

datatype method_tag =
  M_override | M_candidate_highest_br | M_candidate_min_logft | M_missing | M_kept_existing

text \<open>The provenance dictionary.  \<open>p_br_pct_used\<close> holds the percentage that the script
  prints with \<^verbatim>\<open>.6g\<close>, and \<open>None\<close> for the empty string.\<close>

record prov =
  p_method :: method_tag
  p_source :: string
  p_cand_mode :: string
  p_br_pct_used :: "real option"
  p_note :: string

text \<open>The exceptions of a run: the script's own \<^verbatim>\<open>RuntimeError\<close>, and what pandas
  raises (\<open>IndexError\<close> from \<^verbatim>\<open>iloc[0]\<close>, \<open>KeyError\<close> for a column that does not
  exist, \<open>PandasError\<close> for a TypeError or AttributeError inside a conversion).\<close>

datatype py_error = RuntimeError | IndexError | KeyError | PandasError

subsection \<open>\<^verbatim>\<open>_mode_match_score\<close>\<close>

definition mode_match_score :: "string \<Rightarrow> string \<Rightarrow> int" where
  "mode_match_score beta_mode cand_mode =
     (let b = lower (strip beta_mode);
          c = lower (strip cand_mode)
      in if b = [] then 0
         else if contains b c \<and> b \<noteq> [] then 2
         else if b = ''ec'' \<and> contains ''ec'' c then 1
         else if b = ''beta+'' \<and> (contains ''beta+'' c \<or> contains ''ec'' c) then 1
         else if b = ''beta-'' \<and> contains ''beta-'' c then 1
         else 0)"

subsection \<open>Sorting\<close>

text \<open>
  \<^verbatim>\<open>DataFrame.sort_values\<close> on several columns goes through pandas' lexsort, which is
  stable: rows with equal keys keep their order.  It is modelled by insertion sort with
  the comparison \<open>le\<close> (\<open>le a b\<close>: row \<open>a\<close> may stand before row \<open>b\<close>).
\<close>

fun insort_by :: "('a \<Rightarrow> 'a \<Rightarrow> bool) \<Rightarrow> 'a \<Rightarrow> 'a list \<Rightarrow> 'a list" where
  "insort_by le x [] = [x]"
| "insort_by le x (y # ys) = (if le x y then x # y # ys else y # insort_by le x ys)"

definition stable_sort_by :: "('a \<Rightarrow> 'a \<Rightarrow> bool) \<Rightarrow> 'a list \<Rightarrow> 'a list" where
  "stable_sort_by le xs = foldr (insort_by le) xs []"

text \<open>
  The order of \<^verbatim>\<open>sort_values(["_br_sort", "logft"], ascending=[False, True])\<close>, with
  \<^verbatim>\<open>_br_sort = br_pct.fillna(-inf)\<close>.  On \<^typ>\<open>real option\<close> the order of
  the theory \<^verbatim>\<open>HOL-Library.Option_ord\<close> puts \<open>None\<close> below every \<open>Some x\<close>, as \<open>-inf\<close> is
  below every percentage.
\<close>

definition br_logft_le :: "candidate \<Rightarrow> candidate \<Rightarrow> bool" where
  "br_logft_le a b =
     (c_br_pct b < c_br_pct a \<or> (c_br_pct a = c_br_pct b \<and> c_logft a \<le> c_logft b))"

text \<open>
  \<^verbatim>\<open>sort_values(["logft"], ascending=[True])\<close> sorts on a single column, where pandas
  uses \<^verbatim>\<open>kind="quicksort"\<close> unless told otherwise; that sort is not stable, and which of
  several rows with the same logft comes first is up to the library.  The single-column
  sort is therefore a parameter \<open>sort1\<close> of the model.  What the library promises is
  \<open>sorts_by_logft\<close>: the result holds the same rows, in ascending order of logft.
\<close>

definition sorts_by_logft :: "(candidate list \<Rightarrow> candidate list) \<Rightarrow> bool" where
  "sorts_by_logft sort1 =
     (\<forall>xs. mset (sort1 xs) = mset xs \<and> sorted (map c_logft (sort1 xs)))"

text \<open>Two sorts that keep the promise: one stable, one that turns ties around.\<close>

definition stable_sort1 :: "candidate list \<Rightarrow> candidate list" where
  "stable_sort1 xs = stable_sort_by (\<lambda>a b. c_logft a \<le> c_logft b) xs"

definition reversing_sort1 :: "candidate list \<Rightarrow> candidate list" where
  "reversing_sort1 xs = stable_sort_by (\<lambda>a b. c_logft a \<le> c_logft b) (rev xs)"

text \<open>
  A third sort, not code of the script: what numpy's vectorised \<^verbatim>\<open>argsort\<close> does to a
  float column of at most four rows (the library x86-simd-sort, which numpy uses for
  \<^verbatim>\<open>kind="quicksort"\<close> on x86 processors with AVX2 or AVX-512).  The rows are put in four
  lanes, free lanes holding a pad that counts as larger than every number (\<open>None\<close>), and
  go through a fixed network of compare-exchange steps: lanes 0 and 1, 2 and 3; then 0
  and 3, 1 and 2; then 0 and 1, 2 and 3.  A step exchanges two lanes only when the later
  one holds the strictly smaller number, so equal rows are not exchanged with each other,
  but a row may jump over a row equal to it when it is exchanged with a third one.  For
  more than four rows the library goes on with wider networks and partitioning, which
  this definition does not follow; it gives the stable sort there.
\<close>

definition lane_less :: "candidate option \<Rightarrow> candidate option \<Rightarrow> bool" where
  "lane_less a b =
     (case a of None \<Rightarrow> False
      | Some x \<Rightarrow> (case b of None \<Rightarrow> True | Some y \<Rightarrow> c_logft x < c_logft y))"

definition cmp_exchange ::
  "candidate option \<times> candidate option \<Rightarrow> candidate option \<times> candidate option" where
  "cmp_exchange p = (if lane_less (snd p) (fst p) then (snd p, fst p) else p)"

definition network4 :: "candidate option list \<Rightarrow> candidate option list" where
  "network4 ls =
     (case ls of
        [l0, l1, l2, l3] \<Rightarrow>
          (let (a, b) = cmp_exchange (l0, l1); (c, d) = cmp_exchange (l2, l3);
               (a, d) = cmp_exchange (a, d); (b, c) = cmp_exchange (b, c);
               (a, b) = cmp_exchange (a, b); (c, d) = cmp_exchange (c, d)
           in [a, b, c, d])
      | _ \<Rightarrow> ls)"

definition simd_sort1 :: "candidate list \<Rightarrow> candidate list" where
  "simd_sort1 rows =
     (if length rows \<le> 4
      then List.map_filter id (network4 (take 4 (map Some rows @ [None, None, None, None])))
      else stable_sort1 rows)"

subsection \<open>\<^verbatim>\<open>choose_logft_for_row\<close>\<close>

text \<open>\<^verbatim>\<open>frame.iloc[0]\<close> raises IndexError on a frame with no rows.\<close>

definition iloc0 :: "'a list \<Rightarrow> py_error + 'a" where
  "iloc0 xs = (case xs of [] \<Rightarrow> Inl IndexError | x # _ \<Rightarrow> Inr x)"

definition prov_missing :: prov where
  "prov_missing =
     \<lparr>p_method = M_missing, p_source = [], p_cand_mode = [], p_br_pct_used = None, p_note = []\<rparr>"

definition prov_override :: "override \<Rightarrow> prov" where
  "prov_override r =
     \<lparr>p_method = M_override, p_source = o_source r, p_cand_mode = o_mode r,
      p_br_pct_used = None, p_note = o_note r\<rparr>"

definition prov_highest_br :: "candidate \<Rightarrow> prov" where
  "prov_highest_br tp =
     \<lparr>p_method = M_candidate_highest_br, p_source = c_source tp, p_cand_mode = c_mode tp,
      p_br_pct_used = c_br_pct tp, p_note = []\<rparr>"

definition prov_min_logft :: "candidate \<Rightarrow> prov" where
  "prov_min_logft tp =
     \<lparr>p_method = M_candidate_min_logft, p_source = c_source tp, p_cand_mode = c_mode tp,
      p_br_pct_used = None, p_note = []\<rparr>"

text \<open>The rows of the candidate frame for one key, and the rows kept after mode scoring
  (lines 283 to 296).\<close>

definition matching :: "int \<Rightarrow> int \<Rightarrow> candidate list \<Rightarrow> candidate list" where
  "matching Z A candidates = filter (\<lambda>c. c_Z c = Z \<and> c_A c = A) candidates"

definition retained :: "string \<Rightarrow> candidate list \<Rightarrow> candidate list" where
  "retained beta_mode cands =
     (let best_score = Max (set (map (\<lambda>c. mode_match_score beta_mode (c_mode c)) cands))
      in if best_score > 0
         then filter (\<lambda>c. mode_match_score beta_mode (c_mode c) = best_score) cands
         else cands)"

definition choose_logft_for_row ::
  "(candidate list \<Rightarrow> candidate list) \<Rightarrow> int \<Rightarrow> int \<Rightarrow> string \<Rightarrow>
   candidate list \<Rightarrow> override list \<Rightarrow> py_error + (real option \<times> prov)" where
  "choose_logft_for_row sort1 Z A beta_mode candidates overrides =
     (case filter (\<lambda>r. o_Z r = Z \<and> o_A r = A) overrides of
        r # _ \<Rightarrow> Inr (Some (o_logft r), prov_override r)
      | [] \<Rightarrow>
          (let cands = matching Z A candidates in
           if cands = [] then Inr (None, prov_missing)
           else
             (let cands = retained beta_mode cands;
                  has_br = (\<exists>c \<in> set cands. c_br_pct c \<noteq> None)
              in if has_br
                 then (case iloc0 (stable_sort_by br_logft_le cands) of
                         Inl e \<Rightarrow> Inl e
                       | Inr tp \<Rightarrow> Inr (Some (c_logft tp), prov_highest_br tp))
                 else (case iloc0 (sort1 cands) of
                         Inl e \<Rightarrow> Inl e
                       | Inr tp \<Rightarrow> Inr (Some (c_logft tp), prov_min_logft tp)))))"


subsection \<open>Source files and frames\<close>

text \<open>
  A cell of a frame, as far as the script looks at it: \<open>as_str\<close> is what
  \<^verbatim>\<open>astype(str)\<close> or \<^verbatim>\<open>str()\<close> makes of it (\<^verbatim>\<open>"nan"\<close> for an empty cell) and \<open>as_num\<close>
  is what \<^verbatim>\<open>pd.to_numeric(..., errors="coerce")\<close> makes of it (\<open>None\<close>, that is NaN, for
  an empty cell and for text that is no number).
\<close>

record cell =
  as_str :: string
  as_num :: "real option"

definition nan_cell :: cell where
  "nan_cell = \<lparr>as_str = ''nan'', as_num = None\<rparr>"

definition str_cell :: "string \<Rightarrow> cell" where
  "str_cell s = \<lparr>as_str = s, as_num = None\<rparr>"

definition num_cell :: "string \<Rightarrow> real \<Rightarrow> cell" where
  "num_cell s x = \<lparr>as_str = s, as_num = Some x\<rparr>"

text \<open>A CSV file as \<^verbatim>\<open>pd.read_csv\<close> reads it: the header and the rows of cells.\<close>

record csv_file =
  header :: "string list"
  lines :: "cell list list"

text \<open>A frame in memory: the column names, and every row as the cells under the names.
  A name that a row does not hold reads as NaN.\<close>

record frame =
  f_columns :: "string list"
  f_rows :: "(string \<times> cell) list list"

definition get_cell :: "(string \<times> cell) list \<Rightarrow> string \<Rightarrow> cell" where
  "get_cell row col = (case map_of row col of Some c \<Rightarrow> c | None \<Rightarrow> nan_cell)"

definition frame_of_csv :: "csv_file \<Rightarrow> frame" where
  "frame_of_csv f = \<lparr>f_columns = header f, f_rows = map (zip (header f)) (lines f)\<rparr>"

text \<open>The names of a list without repetition, in the order of first appearance.\<close>

definition union_columns :: "string list \<Rightarrow> string list" where
  "union_columns cs = rev (remdups (rev cs))"

text \<open>
  \<^verbatim>\<open>_read_csvs\<close>.  \<open>found\<close> is what the glob yields, each path with the file read;
  \<^verbatim>\<open>sorted\<close> puts the paths in lexicographic order, every frame gets the column
  \<^verbatim>\<open>__file__\<close>, and \<^verbatim>\<open>pd.concat\<close> puts the frames one after the other over the union
  of their columns.
\<close>

definition with_file :: "string \<Rightarrow> csv_file \<Rightarrow> frame" where
  "with_file path f =
     \<lparr>f_columns = union_columns (header f @ [''__file__'']),
      f_rows = map (\<lambda>r. (''__file__'', str_cell path) # zip (header f) r) (lines f)\<rparr>"

definition read_csvs :: "(string \<times> csv_file) list \<Rightarrow> frame" where
  "read_csvs found =
     (let files = stable_sort_by (\<lambda>a b. fst a \<le> fst b) found;
          dfs = map (\<lambda>(path, f). with_file path f) files
      in if files = [] then \<lparr>f_columns = [], f_rows = []\<rparr>
         else \<lparr>f_columns = union_columns (concat (map f_columns dfs)),
               f_rows = concat (map f_rows dfs)\<rparr>)"

text \<open>\<^verbatim>\<open>df.empty\<close>: no rows or no columns.\<close>

definition empty_frame :: "frame \<Rightarrow> bool" where
  "empty_frame df = (f_rows df = [] \<or> f_columns df = [])"

text \<open>\<^verbatim>\<open>df.rename(columns=rename_map)\<close> with the renaming \<open>canon\<close>.\<close>

definition rename :: "(string \<Rightarrow> string) \<Rightarrow> frame \<Rightarrow> frame" where
  "rename canon df =
     \<lparr>f_columns = map canon (f_columns df),
      f_rows = map (map (\<lambda>(k, v). (canon k, v))) (f_rows df)\<rparr>"

text \<open>A column name that stands twice makes \<^verbatim>\<open>out[col]\<close> a frame instead of a column,
  and the conversion applied to it raises.\<close>

definition ambiguous :: "frame \<Rightarrow> string list \<Rightarrow> bool" where
  "ambiguous df cols = (\<exists>c \<in> set cols. count_list (f_columns df) c > 1)"

definition is_integral :: "real \<Rightarrow> bool" where
  "is_integral x = (of_int (floor x) = x)"

text \<open>\<^verbatim>\<open>astype(int)\<close> on a float cuts the fraction off, towards zero.\<close>

definition trunc :: "real \<Rightarrow> int" where
  "trunc x = (if 0 \<le> x then floor x else ceiling x)"

subsection \<open>\<^verbatim>\<open>_normalize_candidates\<close>\<close>

definition canon_candidate :: "string \<Rightarrow> string" where
  "canon_candidate c =
     (let lc = lower (strip c)
      in if lc = ''z'' then ''Z''
         else if lc = ''a'' then ''A''
         else if lc \<in> set [''logft'', ''log_ft'', ''log ft''] then ''logft''
         else if lc \<in> set [''mode'', ''decay_mode'', ''decay''] then ''mode''
         else if lc \<in> set [''br_pct'', ''branch_pct'', ''branching_pct'', ''branching_ratio_pct'']
           then ''br_pct''
         else if lc \<in> set [''br'', ''branch'', ''branching'', ''branching_ratio''] then ''br''
         else if lc = ''source'' then ''source''
         else if lc = ''comment'' then ''comment''
         else c)"

text \<open>The rows that \<^verbatim>\<open>dropna(subset=["Z", "A", "logft"])\<close> keeps.\<close>

definition complete_row :: "(string \<times> cell) list \<Rightarrow> bool" where
  "complete_row r =
     (as_num (get_cell r ''Z'') \<noteq> None \<and> as_num (get_cell r ''A'') \<noteq> None
      \<and> as_num (get_cell r ''logft'') \<noteq> None)"

text \<open>Lines 163 to 172: the percentage of a row.  \<open>br_pct\<close> is the converted percentage
  column, or NaN in every row when the frame has none; where it is NaN and the frame has
  a fraction column, the fraction times 100 is written there.\<close>

definition candidate_br_pct :: "frame \<Rightarrow> (string \<times> cell) list \<Rightarrow> real option" where
  "candidate_br_pct out r =
     (let br_pct = (if ''br_pct'' \<in> set (f_columns out) then as_num (get_cell r ''br_pct'')
                    else None)
      in if ''br'' \<in> set (f_columns out) \<and> br_pct = None
         then map_option (\<lambda>br. br * 100) (as_num (get_cell r ''br''))
         else br_pct)"

definition candidate_source :: "frame \<Rightarrow> (string \<times> cell) list \<Rightarrow> string" where
  "candidate_source out r =
     (let src = (if ''source'' \<in> set (f_columns out) then strip (as_str (get_cell r ''source''))
                 else [])
      in if src = [] then as_str (get_cell r ''__file__'') else src)"

definition candidate_of_row :: "frame \<Rightarrow> (string \<times> cell) list \<Rightarrow> candidate" where
  "candidate_of_row out r =
     \<lparr>c_Z = floor (the (as_num (get_cell r ''Z''))),
      c_A = floor (the (as_num (get_cell r ''A''))),
      c_logft = the (as_num (get_cell r ''logft'')),
      c_mode = (if ''mode'' \<in> set (f_columns out) then strip (as_str (get_cell r ''mode''))
                else []),
      c_br_pct = candidate_br_pct out r,
      c_source = candidate_source out r\<rparr>"

text \<open>
  The function.  The cast \<^verbatim>\<open>astype("Int64")\<close> of the Z and A columns raises on a number
  with a fraction; \<open>candidate_of_row\<close> is applied to complete rows only, where the three
  numbers exist.
\<close>

definition normalize_candidates :: "frame \<Rightarrow> py_error + candidate list" where
  "normalize_candidates df =
     (if empty_frame df then Inr []
      else
        (let out = rename canon_candidate df in
         if \<not> set [''Z'', ''A'', ''logft''] \<subseteq> set (f_columns out) then Inl RuntimeError
         else if ambiguous out [''Z'', ''A'', ''logft'', ''mode'', ''br_pct'', ''br'', ''source'']
           then Inl PandasError
         else if \<exists>r \<in> set (f_rows out). \<exists>col \<in> set [''Z'', ''A''].
                   \<exists>x. as_num (get_cell r col) = Some x \<and> \<not> is_integral x
           then Inl PandasError
         else Inr (map (candidate_of_row out) (filter complete_row (f_rows out)))))"

subsection \<open>\<^verbatim>\<open>_normalize_overrides\<close>\<close>

definition canon_override :: "string \<Rightarrow> string" where
  "canon_override c =
     (let lc = lower (strip c)
      in if lc = ''z'' then ''Z''
         else if lc = ''a'' then ''A''
         else if lc \<in> set [''logft'', ''log_ft'', ''log ft''] then ''logft''
         else if lc \<in> set [''mode'', ''decay_mode'', ''decay''] then ''mode''
         else if lc = ''source'' then ''source''
         else if lc \<in> set [''note'', ''notes'', ''comment''] then ''note''
         else c)"

text \<open>
  The note is handed on as it is read, and turned into text only by
  \<^verbatim>\<open>str(r.get("note", ""))\<close> in \<^verbatim>\<open>choose_logft_for_row\<close>.  With one note column that is the
  text of the cell.  When two or more columns are renamed to \<^verbatim>\<open>note\<close>, nothing raises:
  \<^verbatim>\<open>r.get("note")\<close> is then a Series of the cells, and its text is the printed form that
  pandas gives that Series, which depends on the cells and on the label of the row.  The
  model does not spell that text out: \<open>series_text\<close> is some function of the row number and
  the cells, about which nothing is known.
\<close>

definition series_text :: "nat \<Rightarrow> string list \<Rightarrow> string" where
  "series_text = (SOME f. True)"

text \<open>The cells of a row under the columns named \<^verbatim>\<open>note\<close>, one for every such column (NaN
  where the row is too short).\<close>

definition note_cells :: "frame \<Rightarrow> (string \<times> cell) list \<Rightarrow> string list" where
  "note_cells df r =
     (let cs = map (\<lambda>kv. as_str (snd kv)) (filter (\<lambda>kv. fst kv = ''note'') r)
      in cs @ replicate (count_list (f_columns df) ''note'' - length cs) ''nan'')"

definition override_of_row ::
  "string \<Rightarrow> frame \<Rightarrow> nat \<Rightarrow> (string \<times> cell) list \<Rightarrow> override" where
  "override_of_row path df i r =
     \<lparr>o_Z = trunc (the (as_num (get_cell r ''Z''))),
      o_A = trunc (the (as_num (get_cell r ''A''))),
      o_logft = the (as_num (get_cell r ''logft'')),
      o_mode = (if ''mode'' \<in> set (f_columns df) then strip (as_str (get_cell r ''mode''))
                else []),
      o_source =
        (let src = (if ''source'' \<in> set (f_columns df)
                    then strip (as_str (get_cell r ''source'')) else strip path)
         in if src = [] then path else src),
      o_note = (if ''note'' \<notin> set (f_columns df) then []
                else if count_list (f_columns df) ''note'' = 1 then as_str (get_cell r ''note'')
                else series_text i (note_cells df r))\<rparr>"

text \<open>The argument is \<open>None\<close> when the path does not exist, else the path and the file.
  The rows are numbered from 0 as they stand in the file, and keep their numbers when
  \<^verbatim>\<open>dropna\<close> removes rows.\<close>

definition normalize_overrides :: "(string \<times> csv_file) option \<Rightarrow> py_error + override list" where
  "normalize_overrides file =
     (case file of
        None \<Rightarrow> Inr []
      | Some (path, f) \<Rightarrow>
          (let df = rename canon_override (frame_of_csv f) in
           if \<not> set [''Z'', ''A'', ''logft''] \<subseteq> set (f_columns df) then Inl RuntimeError
           else if ambiguous df [''Z'', ''A'', ''logft'', ''mode'', ''source'']
             then Inl PandasError
           else Inr (map (\<lambda>(i, r). override_of_row path df i r)
                       (filter (\<lambda>(i, r). complete_row r) (enumerate 0 (f_rows df))))))"


subsection \<open>The primary table and the audit\<close>

text \<open>
  A row of the primary table, with the columns the script reads.  \<open>b_mode\<close> is what
  \<^verbatim>\<open>str(row.get("mode", ""))\<close> gives; \<open>b_logft\<close> is the float cell, \<open>None\<close> for NaN;
  \<open>b_other\<close> holds the cells of the remaining columns (\<^verbatim>\<open>tau_s\<close>, \<^verbatim>\<open>Q_mev\<close> and any
  other), which the script carries along.
\<close>

record primary =
  b_Z :: int
  b_A :: int
  b_mode :: string
  b_logft :: "real option"
  b_other :: "string list"

record table =
  t_columns :: "string list"
  t_rows :: "primary list"

record audit_row =
  a_Z :: int
  a_A :: int
  a_logft :: "real option"
  a_method :: method_tag
  a_source :: string
  a_beta_mode :: string
  a_cand_mode :: string
  a_br_pct_used :: "real option"
  a_note :: string

text \<open>Lines 374 and 375.  On a float cell \<^verbatim>\<open>str(cur).strip() != ""\<close> always holds, so
  \<^verbatim>\<open>has_cur\<close> is \<^verbatim>\<open>pd.notna(cur)\<close>.\<close>

definition has_cur :: "primary \<Rightarrow> bool" where
  "has_cur row = (b_logft row \<noteq> None)"

definition audit_of :: "primary \<Rightarrow> real option \<Rightarrow> prov \<Rightarrow> audit_row" where
  "audit_of row logft pr =
     \<lparr>a_Z = b_Z row, a_A = b_A row, a_logft = logft, a_method = p_method pr,
      a_source = p_source pr, a_beta_mode = strip (b_mode row),
      a_cand_mode = p_cand_mode pr, a_br_pct_used = p_br_pct_used pr, a_note = p_note pr\<rparr>"

definition audit_kept :: "primary \<Rightarrow> audit_row" where
  "audit_kept row =
     \<lparr>a_Z = b_Z row, a_A = b_A row, a_logft = b_logft row, a_method = M_kept_existing,
      a_source = [], a_beta_mode = strip (b_mode row),
      a_cand_mode = [], a_br_pct_used = None, a_note = []\<rparr>"

text \<open>The body of the loop of \<^verbatim>\<open>main\<close> (lines 370 to 417): the row as it stands in the
  table afterwards, and the audit row.\<close>

definition process_row ::
  "(candidate list \<Rightarrow> candidate list) \<Rightarrow> bool \<Rightarrow> candidate list \<Rightarrow> override list \<Rightarrow>
   primary \<Rightarrow> py_error + (primary \<times> audit_row)" where
  "process_row sort1 force candidates overrides row =
     (if has_cur row \<and> \<not> force then Inr (row, audit_kept row)
      else
        (case choose_logft_for_row sort1 (b_Z row) (b_A row) (strip (b_mode row))
                candidates overrides of
           Inl e \<Rightarrow> Inl e
         | Inr (None, pr) \<Rightarrow> Inr (row, audit_of row None pr)
         | Inr (Some logft, pr) \<Rightarrow>
             Inr (row\<lparr>b_logft := Some logft\<rparr>, audit_of row (Some logft) pr)))"

fun process_rows ::
  "(candidate list \<Rightarrow> candidate list) \<Rightarrow> bool \<Rightarrow> candidate list \<Rightarrow> override list \<Rightarrow>
   primary list \<Rightarrow> py_error + (primary list \<times> audit_row list)" where
  "process_rows sort1 force candidates overrides [] = Inr ([], [])"
| "process_rows sort1 force candidates overrides (row # rest) =
     (case process_row sort1 force candidates overrides row of
        Inl e \<Rightarrow> Inl e
      | Inr (row', a) \<Rightarrow>
          (case process_rows sort1 force candidates overrides rest of
             Inl e \<Rightarrow> Inl e
           | Inr (rows', audit_rows) \<Rightarrow> Inr (row' # rows', a # audit_rows)))"

subsection \<open>\<^verbatim>\<open>main\<close>\<close>

text \<open>
  What a run finds: the primary table (\<open>None\<close> when the path does not exist), the files
  that the glob \<^verbatim>\<open>logft_dir/*.csv\<close> yields, the overrides file (\<open>None\<close> when the path does
  not exist) and the two flags.
\<close>

record env =
  beta_file :: "table option"
  logft_files :: "(string \<times> csv_file) list"
  overrides_file :: "(string \<times> csv_file) option"
  force :: bool
  require_complete :: bool

text \<open>What a run leaves: how it ended, and the two files if it wrote them.\<close>

datatype status = Exit int | Raised py_error

record run =
  ended :: status
  beta_written :: "table option"
  audit_written :: "audit_row list option"

definition required_columns :: "string list" where
  "required_columns = [''Z'', ''A'', ''mode'', ''tau_s'', ''Q_mev'']"

text \<open>Lines 347 and 348: a table without the column gets it, NaN in every row.\<close>

definition ensure_logft :: "table \<Rightarrow> table" where
  "ensure_logft beta =
     (if ''logft'' \<in> set (t_columns beta) then beta
      else \<lparr>t_columns = t_columns beta @ [''logft''],
            t_rows = map (\<lambda>r. r\<lparr>b_logft := None\<rparr>) (t_rows beta)\<rparr>)"

text \<open>\<^verbatim>\<open>audit.sort_values(["Z", "A"])\<close>: two columns, so the stable lexsort.\<close>

definition audit_le :: "audit_row \<Rightarrow> audit_row \<Rightarrow> bool" where
  "audit_le a b = (a_Z a < a_Z b \<or> (a_Z a = a_Z b \<and> a_A a \<le> a_A b))"

text \<open>
  The run.  Between the loop and the end nothing can fail but the sort of the audit:
  a frame made from no rows has no columns, and \<^verbatim>\<open>sort_values(["Z", "A"])\<close> raises
  KeyError on it, after the table has been written.
\<close>

definition main :: "(candidate list \<Rightarrow> candidate list) \<Rightarrow> env \<Rightarrow> run" where
  "main sort1 e =
     (case beta_file e of
        None \<Rightarrow> \<lparr>ended = Exit 2, beta_written = None, audit_written = None\<rparr>
      | Some beta0 \<Rightarrow>
          if \<not> set required_columns \<subseteq> set (t_columns beta0)
          then \<lparr>ended = Raised RuntimeError, beta_written = None, audit_written = None\<rparr>
          else
            (let beta = ensure_logft beta0;
                 candidates_raw = read_csvs (logft_files e)
             in if empty_frame candidates_raw \<and> overrides_file e = None
                then \<lparr>ended = Exit 2, beta_written = None, audit_written = None\<rparr>
                else
                  (case (if \<not> empty_frame candidates_raw
                         then normalize_candidates candidates_raw else Inr []) of
                     Inl err \<Rightarrow>
                       \<lparr>ended = Raised err, beta_written = None, audit_written = None\<rparr>
                   | Inr candidates \<Rightarrow>
                       (case normalize_overrides (overrides_file e) of
                          Inl err \<Rightarrow>
                            \<lparr>ended = Raised err, beta_written = None, audit_written = None\<rparr>
                        | Inr overrides \<Rightarrow>
                            (case process_rows sort1 (force e) candidates overrides
                                    (t_rows beta) of
                               Inl err \<Rightarrow>
                                 \<lparr>ended = Raised err, beta_written = None,
                                  audit_written = None\<rparr>
                             | Inr (rows', audit_rows) \<Rightarrow>
                                 (let beta' = beta\<lparr>t_rows := rows'\<rparr> in
                                  if audit_rows = []
                                  then \<lparr>ended = Raised KeyError, beta_written = Some beta',
                                        audit_written = None\<rparr>
                                  else
                                    (let audit = stable_sort_by audit_le audit_rows;
                                         still_missing =
                                           length (filter (\<lambda>r. b_logft r = None) rows')
                                     in if require_complete e \<and> still_missing \<noteq> 0
                                        then \<lparr>ended = Exit 3, beta_written = Some beta',
                                              audit_written = Some audit\<rparr>
                                        else \<lparr>ended = Exit 0, beta_written = Some beta',
                                              audit_written = Some audit\<rparr>)))))))"

subsection \<open>Orders\<close>

text \<open>A comparison that sorting can use: total and transitive.\<close>

definition total_preorder :: "('a \<Rightarrow> 'a \<Rightarrow> bool) \<Rightarrow> bool" where
  "total_preorder le = ((\<forall>a b. le a b \<or> le b a) \<and> (\<forall>a b c. le a b \<longrightarrow> le b c \<longrightarrow> le a c))"

subsection \<open>The claimed mode score\<close>

text \<open>The score as the specification words it: both strings lower-cased and nothing
  more, 2 for a non-empty primary mode that occurs in the candidate mode, else 1 for the
  compatibility pairs, else 0.  It is compared with \<open>mode_match_score\<close> below.\<close>

definition claimed_mode_score :: "string \<Rightarrow> string \<Rightarrow> int" where
  "claimed_mode_score primary_mode cand_mode =
     (let b = lower primary_mode; c = lower cand_mode
      in if b \<noteq> [] \<and> sublist b c then 2
         else if (b = ''ec'' \<and> sublist ''ec'' c)
                 \<or> (b = ''beta+'' \<and> (sublist ''beta+'' c \<or> sublist ''ec'' c))
                 \<or> (b = ''beta-'' \<and> sublist ''beta-'' c) then 1
         else 0)"

subsection \<open>Example data\<close>

text \<open>The rows of the end-to-end scenario of the specification, and some more.\<close>

definition ex_k1 :: candidate where
  "ex_k1 = \<lparr>c_Z = 19, c_A = 44, c_logft = 5.3, c_mode = ''beta-'', c_br_pct = Some 80,
            c_source = ''a.csv''\<rparr>"

definition ex_k2 :: candidate where
  "ex_k2 = \<lparr>c_Z = 19, c_A = 44, c_logft = 6.1, c_mode = ''EC'', c_br_pct = Some 20,
            c_source = ''a.csv''\<rparr>"

definition ex_k3 :: candidate where
  "ex_k3 = \<lparr>c_Z = 19, c_A = 44, c_logft = 5.3, c_mode = ''beta-'', c_br_pct = None,
            c_source = ''a.csv''\<rparr>"

definition ex_k4 :: candidate where
  "ex_k4 = \<lparr>c_Z = 19, c_A = 44, c_logft = 5.3, c_mode = ''beta-'', c_br_pct = None,
            c_source = ''b.csv''\<rparr>"

definition ex_k5 :: candidate where
  "ex_k5 = \<lparr>c_Z = 19, c_A = 44, c_logft = 6.1, c_mode = ''beta-'', c_br_pct = None,
            c_source = ''b.csv''\<rparr>"

definition ex_o0 :: override where
  "ex_o0 = \<lparr>o_Z = 20, o_A = 40, o_logft = 3.5, o_mode = [], o_source = ''ovr.csv'',
            o_note = []\<rparr>"

definition ex_o1 :: override where
  "ex_o1 = \<lparr>o_Z = 19, o_A = 44, o_logft = 4.9, o_mode = [], o_source = ''ovr.csv'',
            o_note = ''first''\<rparr>"

definition ex_o2 :: override where
  "ex_o2 = \<lparr>o_Z = 19, o_A = 44, o_logft = 7, o_mode = [], o_source = ''ovr.csv'',
            o_note = ''second''\<rparr>"

text \<open>A primary table of three rows, not in the order of (Z, A): a nuclide that no source
  knows, the nuclide of the scenario, and a row that already has a logft.\<close>

definition ex_r1 :: primary where
  "ex_r1 = \<lparr>b_Z = 20, b_A = 40, b_mode = ''beta-'', b_logft = None, b_other = []\<rparr>"

definition ex_r2 :: primary where
  "ex_r2 = \<lparr>b_Z = 19, b_A = 44, b_mode = ''beta-'', b_logft = None, b_other = []\<rparr>"

definition ex_r3 :: primary where
  "ex_r3 = \<lparr>b_Z = 19, b_A = 44, b_mode = ''EC'', b_logft = Some 9.9, b_other = []\<rparr>"

definition ex_table :: table where
  "ex_table = \<lparr>t_columns = [''Z'', ''A'', ''mode'', ''tau_s'', ''Q_mev'', ''logft''],
               t_rows = [ex_r1, ex_r2, ex_r3]\<rparr>"

text \<open>The candidate file of the scenario; read, it gives the rows \<open>ex_k1\<close> and \<open>ex_k2\<close>.\<close>

definition ex_csv_a :: csv_file where
  "ex_csv_a =
     \<lparr>header = [''Z'', ''A'', ''logft'', ''mode'', ''br_pct''],
      lines = [[num_cell ''19'' 19, num_cell ''44'' 44, num_cell ''5.3'' 5.3,
                str_cell ''beta-'', num_cell ''80'' 80],
               [num_cell ''19'' 19, num_cell ''44'' 44, num_cell ''6.1'' 6.1,
                str_cell ''EC'', num_cell ''20'' 20]]\<rparr>"

definition ex_env :: env where
  "ex_env = \<lparr>beta_file = Some ex_table, logft_files = [(''a.csv'', ex_csv_a)],
             overrides_file = None, force = False, require_complete = False\<rparr>"

text \<open>What the run over \<open>ex_env\<close> writes.\<close>

definition ex_table_out :: table where
  "ex_table_out = ex_table\<lparr>t_rows := [ex_r1, ex_r2\<lparr>b_logft := Some 5.3\<rparr>, ex_r3]\<rparr>"

definition ex_audit_1 :: audit_row where
  "ex_audit_1 = \<lparr>a_Z = 20, a_A = 40, a_logft = None, a_method = M_missing, a_source = [],
                 a_beta_mode = ''beta-'', a_cand_mode = [], a_br_pct_used = None,
                 a_note = []\<rparr>"

definition ex_audit_2 :: audit_row where
  "ex_audit_2 = \<lparr>a_Z = 19, a_A = 44, a_logft = Some 5.3, a_method = M_candidate_highest_br,
                 a_source = ''a.csv'', a_beta_mode = ''beta-'', a_cand_mode = ''beta-'',
                 a_br_pct_used = Some 80, a_note = []\<rparr>"

definition ex_audit_3 :: audit_row where
  "ex_audit_3 = \<lparr>a_Z = 19, a_A = 44, a_logft = Some 9.9, a_method = M_kept_existing,
                 a_source = [], a_beta_mode = ''EC'', a_cand_mode = [], a_br_pct_used = None,
                 a_note = []\<rparr>"

text \<open>Four candidates of one nuclide without percentages: two larger values of logft,
  then the smallest value twice.\<close>

definition ex_t1 :: candidate where
  "ex_t1 = \<lparr>c_Z = 19, c_A = 44, c_logft = 6.1, c_mode = ''beta-'', c_br_pct = None,
            c_source = ''s1''\<rparr>"
definition ex_t2 :: candidate where
  "ex_t2 = \<lparr>c_Z = 19, c_A = 44, c_logft = 6.5, c_mode = ''beta-'', c_br_pct = None,
            c_source = ''s2''\<rparr>"
definition ex_t3 :: candidate where
  "ex_t3 = \<lparr>c_Z = 19, c_A = 44, c_logft = 5.3, c_mode = ''beta-'', c_br_pct = None,
            c_source = ''s3''\<rparr>"
definition ex_t4 :: candidate where
  "ex_t4 = \<lparr>c_Z = 19, c_A = 44, c_logft = 5.3, c_mode = ''beta-'', c_br_pct = None,
            c_source = ''s4''\<rparr>"



subsection \<open>Getting through the loop\<close>

text \<open>\<open>reaches_loop sort1 e beta rows' audit_rows\<close>: in the run over \<open>e\<close> the inputs are
  there, the normalisations succeed, and the loop over the rows of the table \<open>beta\<close> ends
  with the rows \<open>rows'\<close> and the audit rows \<open>audit_rows\<close>.\<close>

definition reaches_loop ::
  "(candidate list \<Rightarrow> candidate list) \<Rightarrow> env \<Rightarrow> table \<Rightarrow> primary list \<Rightarrow> audit_row list \<Rightarrow> bool"
  where
  "reaches_loop sort1 e beta rows' audit_rows =
     (\<exists>beta0 candidates overrides.
        beta_file e = Some beta0 \<and> set required_columns \<subseteq> set (t_columns beta0)
        \<and> beta = ensure_logft beta0
        \<and> \<not> (empty_frame (read_csvs (logft_files e)) \<and> overrides_file e = None)
        \<and> (if \<not> empty_frame (read_csvs (logft_files e))
            then normalize_candidates (read_csvs (logft_files e)) else Inr []) = Inr candidates
        \<and> normalize_overrides (overrides_file e) = Inr overrides
        \<and> process_rows sort1 (force e) candidates overrides (t_rows beta) = Inr (rows', audit_rows))"

subsection \<open>Two more candidate files\<close>

text \<open>A candidate file without a Z column, and one with a percentage column that is
  blank in its second row next to a fraction column.\<close>

definition ex_csv_b :: csv_file where
  "ex_csv_b =
     \<lparr>header = [''A'', ''logft''],
      lines = [[num_cell ''44'' 44, num_cell ''4.0'' 4]]\<rparr>"

definition ex_csv_c :: csv_file where
  "ex_csv_c =
     \<lparr>header = [''Z'', ''A'', ''logft'', ''br_pct'', ''br''],
      lines = [[num_cell ''19'' 19, num_cell ''44'' 44, num_cell ''5.3'' 5.3,
                num_cell ''50'' 50, num_cell ''0.5'' 0.5],
               [num_cell ''19'' 19, num_cell ''44'' 44, num_cell ''6.1'' 6.1,
                nan_cell, num_cell ''0.3'' 0.3]]\<rparr>"

section \<open>Properties\<close>

subsection \<open>The stable sort\<close>

lemma mset_insort_by: "mset (insort_by le x ys) = add_mset x (mset ys)"
  by (induction ys) auto

lemma mset_stable_sort_by: "mset (stable_sort_by le xs) = mset xs"
  by (induction xs) (auto simp: stable_sort_by_def mset_insort_by)

lemma set_stable_sort_by: "set (stable_sort_by le xs) = set xs"
  using mset_stable_sort_by [of le xs] by (metis set_mset_mset)

lemma length_stable_sort_by: "length (stable_sort_by le xs) = length xs"
  using mset_stable_sort_by [of le xs] by (metis size_mset)

lemma stable_sort_by_Cons: "stable_sort_by le (x # xs) = insort_by le x (stable_sort_by le xs)"
  by (simp add: stable_sort_by_def)

lemma stable_sort_by_Nil_iff: "stable_sort_by le xs = [] \<longleftrightarrow> xs = []"
  using mset_stable_sort_by [of le xs] by (metis mset_zero_iff)

lemma set_insort_by: "set (insort_by le x ys) = insert x (set ys)"
  by (induction ys) auto

lemma sorted_wrt_insort_by:
  assumes "total_preorder le" "sorted_wrt le ys"
  shows "sorted_wrt le (insort_by le x ys)"
  using assms(2)
proof (induction ys)
  case Nil then show ?case by simp
next
  case (Cons y ys)
  show ?case
  proof (cases "le x y")
    case True
    have "\<forall>z \<in> set ys. le x z"
      using True Cons.prems assms(1) unfolding total_preorder_def by (metis sorted_wrt.simps(2))
    then show ?thesis using True Cons.prems by simp
  next
    case False
    then have "le y x" using assms(1) unfolding total_preorder_def by blast
    then show ?thesis using False Cons by (auto simp: set_insort_by)
  qed
qed

lemma sorted_wrt_stable_sort_by:
  "total_preorder le \<Longrightarrow> sorted_wrt le (stable_sort_by le xs)"
  by (induction xs) (simp_all add: stable_sort_by_def sorted_wrt_insort_by)

lemma hd_insort_by:
  "hd (insort_by le x ys) = (if ys = [] \<or> le x (hd ys) then x else hd ys)"
  by (cases ys) auto

lemma hd_stable_sort_by:
  assumes "total_preorder le" "xs \<noteq> []"
  shows "\<exists>ps ss. xs = ps @ hd (stable_sort_by le xs) # ss
           \<and> (\<forall>y \<in> set ps. \<not> le y (hd (stable_sort_by le xs)))
           \<and> (\<forall>y \<in> set ss. le (hd (stable_sort_by le xs)) y)"
  using assms(2)
proof (induction xs)
  case Nil then show ?case by simp
next
  case (Cons x xs)
  show ?case
  proof (cases "xs = []")
    case True
    then have "x # xs = [] @ hd (stable_sort_by le (x # xs)) # []"
      by (simp add: stable_sort_by_def)
    then show ?thesis by (metis empty_iff list.set(1))
  next
    case False
    let ?w = "hd (stable_sort_by le xs)"
    from Cons.IH [OF False] obtain ps ss where
      xs: "xs = ps @ ?w # ss" and ps: "\<forall>y \<in> set ps. \<not> le y ?w" and ss: "\<forall>y \<in> set ss. le ?w y"
      by blast
    have ne: "stable_sort_by le xs \<noteq> []" using False by (simp add: stable_sort_by_Nil_iff)
    show ?thesis
    proof (cases "le x ?w")
      case True
      then have h: "hd (stable_sort_by le (x # xs)) = x"
        by (simp add: stable_sort_by_Cons hd_insort_by)
      have "\<forall>y \<in> set xs. le x y"
      proof
        fix y assume "y \<in> set xs"
        then have "y \<in> set ps \<or> y = ?w \<or> y \<in> set ss" using xs
          by (metis Un_iff set_ConsD set_append)
        moreover have "le ?w y" if "y \<in> set ps"
          using ps that assms(1) unfolding total_preorder_def by blast
        ultimately have "le ?w y \<or> y = ?w" using ss by blast
        then show "le x y" using True assms(1) unfolding total_preorder_def by blast
      qed
      then have "x # xs = [] @ x # xs \<and> (\<forall>y \<in> set []. \<not> le y x) \<and> (\<forall>y \<in> set xs. le x y)"
        by simp
      then show ?thesis unfolding h by blast
    next
      case False
      then have h: "hd (stable_sort_by le (x # xs)) = ?w"
        using ne by (simp add: stable_sort_by_Cons hd_insort_by)
      have "x # xs = (x # ps) @ ?w # ss" using xs by simp
      moreover have "\<forall>y \<in> set (x # ps). \<not> le y ?w" using ps False by simp
      ultimately show ?thesis unfolding h using ss by blast
    qed
  qed
qed

lemma iloc0_stable_sort_by:
  "xs \<noteq> [] \<Longrightarrow> iloc0 (stable_sort_by le xs) = Inr (hd (stable_sort_by le xs))"
  by (cases "stable_sort_by le xs") (simp_all add: iloc0_def stable_sort_by_Nil_iff)

lemma total_preorder_br_logft_le: "total_preorder br_logft_le"
  unfolding total_preorder_def br_logft_le_def
  by (intro conjI allI impI) (auto simp: not_less)

lemma total_preorder_logft_le:
  "total_preorder (\<lambda>(a::candidate) (b::candidate). c_logft a \<le> c_logft b)"
  unfolding total_preorder_def by auto

lemma total_preorder_audit_le: "total_preorder audit_le"
  unfolding total_preorder_def audit_le_def by auto

lemma sorts_by_logft_stable_sort1: "sorts_by_logft stable_sort1"
  unfolding sorts_by_logft_def stable_sort1_def
  using sorted_wrt_stable_sort_by [OF total_preorder_logft_le]
  by (simp add: mset_stable_sort_by sorted_map)

lemma sorts_by_logft_reversing_sort1: "sorts_by_logft reversing_sort1"
  unfolding sorts_by_logft_def reversing_sort1_def
  using sorted_wrt_stable_sort_by [OF total_preorder_logft_le]
  by (simp add: mset_stable_sort_by sorted_map)

lemma retained_subset: "set (retained m cands) \<subseteq> set cands"
  by (auto simp: retained_def Let_def)

lemma retained_nonempty:
  assumes "cands \<noteq> []"
  shows "retained m cands \<noteq> []"
proof -
  let ?f = "\<lambda>c. mode_match_score m (c_mode c)"
  have "Max (set (map ?f cands)) \<in> set (map ?f cands)"
    using assms by (intro Max_in) auto
  then obtain c where "c \<in> set cands" "?f c = Max (set (map ?f cands))" by auto
  then have "filter (\<lambda>c. ?f c = Max (set (map ?f cands))) cands \<noteq> []"
    by (auto simp: filter_empty_conv)
  then show ?thesis using assms by (simp add: retained_def Let_def)
qed

lemma contains_sublist: "contains b c = sublist b c"
  by (induction c) (simp_all add: sublist_Cons_right)

subsection \<open>Unfolding the examples\<close>

lemmas ex_defs = ex_k1_def ex_k2_def ex_k3_def ex_k4_def ex_k5_def ex_o0_def ex_o1_def ex_o2_def
lemmas str_defs = lower_def strip_def is_space_def lower_char_def
lemmas choose_defs = choose_logft_for_row_def matching_def retained_def mode_match_score_def
  stable_sort_by_def br_logft_le_def iloc0_def stable_sort1_def reversing_sort1_def
  prov_override_def prov_missing_def prov_highest_br_def prov_min_logft_def


subsection \<open>The loop and the run\<close>

lemma process_rows_Inr:
  assumes "process_rows s f c ov rows = Inr (rows', as)"
  shows "length rows' = length rows \<and> length as = length rows
         \<and> (\<forall>i < length rows. process_row s f c ov (rows ! i) = Inr (rows' ! i, as ! i))"
  using assms
proof (induction rows arbitrary: rows' as)
  case Nil then show ?case by simp
next
  case (Cons r rest)
  from Cons.prems obtain r' a rs' as' where
    r: "process_row s f c ov r = Inr (r', a)" and
    rest: "process_rows s f c ov rest = Inr (rs', as')" and
    eq: "rows' = r' # rs'" "as = a # as'"
    by (auto split: sum.splits prod.splits)
  from Cons.IH [OF rest] have ih: "length rs' = length rest" "length as' = length rest"
    "\<forall>i < length rest. process_row s f c ov (rest ! i) = Inr (rs' ! i, as' ! i)" by auto
  show ?case unfolding eq using r ih by (auto simp: nth_Cons split: nat.splits)
qed

lemma process_rows_intro:
  assumes "length rows' = length rows" "length as = length rows"
    and "\<forall>i < length rows. process_row s f c ov (rows ! i) = Inr (rows' ! i, as ! i)"
  shows "process_rows s f c ov rows = Inr (rows', as)"
  using assms
proof (induction rows arbitrary: rows' as)
  case Nil then show ?case by simp
next
  case (Cons r rest)
  from Cons.prems(1,2) obtain r' rs' a as' where eq: "rows' = r' # rs'" "as = a # as'"
    by (metis length_Suc_conv)
  have "process_row s f c ov r = Inr (r', a)" using Cons.prems(3) eq by fastforce
  moreover have "process_rows s f c ov rest = Inr (rs', as')"
  proof (rule Cons.IH)
    show "length rs' = length rest" "length as' = length rest" using Cons.prems eq by auto
    show "\<forall>i<length rest. process_row s f c ov (rest ! i) = Inr (rs' ! i, as' ! i)"
      using Cons.prems(3) eq by fastforce
  qed
  ultimately show ?case by (simp add: eq)
qed

lemma choose_None:
  assumes "choose_logft_for_row s Z A m c ov = Inr (None, pr)"
  shows "pr = prov_missing \<and> choose_logft_for_row s' Z A m c ov = Inr (None, prov_missing)"
  using assms
  by (auto simp: choose_logft_for_row_def Let_def split: list.splits if_splits sum.splits)

lemma main_after_loop:
  assumes "reaches_loop sort1 e beta rows' audit_rows"
  shows "main sort1 e =
           (if audit_rows = []
            then \<lparr>ended = Raised KeyError, beta_written = Some (beta\<lparr>t_rows := rows'\<rparr>),
                  audit_written = None\<rparr>
            else \<lparr>ended = (if require_complete e \<and> (\<exists>r \<in> set rows'. b_logft r = None)
                           then Exit 3 else Exit 0),
                  beta_written = Some (beta\<lparr>t_rows := rows'\<rparr>),
                  audit_written = Some (stable_sort_by audit_le audit_rows)\<rparr>)"
  using assms unfolding reaches_loop_def
  by (auto simp: main_def Let_def filter_empty_conv)

lemma main_written:
  assumes "beta_written (main sort1 e) = Some T"
  shows "\<exists>beta rows' audit_rows. reaches_loop sort1 e beta rows' audit_rows
           \<and> T = beta\<lparr>t_rows := rows'\<rparr>"
  using assms unfolding reaches_loop_def
  by (auto simp: main_def Let_def split: option.splits if_splits sum.splits prod.splits)


subsection \<open>The example run\<close>

lemmas ex_run_defs = ex_r1_def ex_r2_def ex_r3_def ex_table_def ex_csv_a_def ex_env_def
  ex_table_out_def ex_audit_1_def ex_audit_2_def ex_audit_3_def num_cell_def str_cell_def

lemma ex_read:
  "read_csvs [(''a.csv'', ex_csv_a)] =
     \<lparr>f_columns = [''Z'', ''A'', ''logft'', ''mode'', ''br_pct'', ''__file__''],
      f_rows = map (\<lambda>r. (''__file__'', str_cell ''a.csv'') # zip (header ex_csv_a) r)
                 (lines ex_csv_a)\<rparr>"
  by (simp add: read_csvs_def stable_sort_by_def with_file_def union_columns_def ex_csv_a_def)

lemma canon_ex:
  "map canon_candidate [''Z'', ''A'', ''logft'', ''mode'', ''br_pct'', ''__file__'']
     = [''Z'', ''A'', ''logft'', ''mode'', ''br_pct'', ''__file__'']"
  by (simp add: canon_candidate_def str_defs)

lemma ex_norm:
  "normalize_candidates (read_csvs [(''a.csv'', ex_csv_a)]) = Inr [ex_k1, ex_k2]"
  unfolding ex_read
  by (simp add: normalize_candidates_def empty_frame_def rename_def canon_candidate_def
        ambiguous_def is_integral_def complete_row_def get_cell_def candidate_of_row_def
        candidate_br_pct_def candidate_source_def str_defs ex_csv_a_def num_cell_def
        str_cell_def ex_defs)

lemma ex_loop:
  "process_rows sort1 False [ex_k1, ex_k2] [] [ex_r1, ex_r2, ex_r3] =
     Inr ([ex_r1, ex_r2\<lparr>b_logft := Some 5.3\<rparr>, ex_r3], [ex_audit_1, ex_audit_2, ex_audit_3])"
  by (simp add: process_row_def has_cur_def audit_kept_def audit_of_def choose_defs str_defs
        ex_defs ex_run_defs)

lemma ex_sorted_audit:
  "stable_sort_by audit_le [ex_audit_1, ex_audit_2, ex_audit_3] =
     [ex_audit_2, ex_audit_3, ex_audit_1]"
  by (simp add: stable_sort_by_def audit_le_def ex_run_defs)

lemma ex_reaches:
  "reaches_loop sort1 (ex_env\<lparr>require_complete := rc\<rparr>) ex_table
     [ex_r1, ex_r2\<lparr>b_logft := Some 5.3\<rparr>, ex_r3] [ex_audit_1, ex_audit_2, ex_audit_3]"
proof -
  have rows: "t_rows ex_table = [ex_r1, ex_r2, ex_r3]" by (simp add: ex_table_def)
  have ens: "ensure_logft ex_table = ex_table" by (simp add: ensure_logft_def ex_table_def)
  have req: "set required_columns \<subseteq> set (t_columns ex_table)"
    by (simp add: required_columns_def ex_table_def)
  have ne: "\<not> empty_frame (read_csvs [(''a.csv'', ex_csv_a)])"
    unfolding ex_read by (simp add: empty_frame_def ex_csv_a_def)
  show ?thesis
    unfolding reaches_loop_def
    apply (rule exI [of _ ex_table], rule exI [of _ "[ex_k1, ex_k2]"], rule exI [of _ "[]"])
    using req ne ens ex_norm ex_loop [of sort1]
    by (simp add: ex_env_def rows normalize_overrides_def)
qed

lemma ex_main:
  "main sort1 (ex_env\<lparr>require_complete := rc\<rparr>) =
     \<lparr>ended = (if rc then Exit 3 else Exit 0), beta_written = Some ex_table_out,
      audit_written = Some [ex_audit_2, ex_audit_3, ex_audit_1]\<rparr>"
  unfolding main_after_loop [OF ex_reaches]
  by (simp add: ex_sorted_audit ex_table_out_def ex_r1_def ex_r2_def ex_r3_def)

lemma process_row_again:
  assumes "process_row s False c ov r = Inr (r', a)"
  shows "process_row s False c ov r' =
           Inr (r', if b_logft r' \<noteq> None then audit_kept r' else audit_of r' None prov_missing)"
proof (cases "has_cur r")
  case True
  then show ?thesis using assms by (auto simp: process_row_def has_cur_def)
next
  case False
  show ?thesis
  proof (cases "choose_logft_for_row s (b_Z r) (b_A r) (strip (b_mode r)) c ov")
    case (Inl e) then show ?thesis using assms False by (simp add: process_row_def)
  next
    case (Inr res)
    obtain v pr where res: "res = (v, pr)" by (cases res)
    show ?thesis
    proof (cases v)
      case None
      then have r': "r' = r" using assms False Inr res by (simp add: process_row_def)
      have "pr = prov_missing" using choose_None Inr res None by blast
      then show ?thesis using False Inr res None r' by (simp add: process_row_def has_cur_def)
    next
      case (Some x)
      then have "r' = r\<lparr>b_logft := Some x\<rparr>"
        using assms False Inr res by (simp add: process_row_def)
      then show ?thesis by (simp add: process_row_def has_cur_def)
    qed
  qed
qed

lemma process_row_keys:
  assumes "process_row s f c ov r = Inr (r', a)"
  shows "a_Z a = b_Z r' \<and> a_A a = b_A r'"
  using assms
  by (auto simp: process_row_def audit_kept_def audit_of_def
           split: if_splits sum.splits prod.splits option.splits)

lemma process_rows_keys:
  assumes "process_rows s f c ov rows = Inr (rows', as)"
  shows "map (\<lambda>a. (a_Z a, a_A a)) as = map (\<lambda>r. (b_Z r, b_A r)) rows'"
proof (rule nth_equalityI)
  note p = process_rows_Inr [OF assms]
  show "length (map (\<lambda>a. (a_Z a, a_A a)) as) = length (map (\<lambda>r. (b_Z r, b_A r)) rows')"
    using p by simp
  fix i assume "i < length (map (\<lambda>a. (a_Z a, a_A a)) as)"
  then have i: "i < length rows" using p by simp
  then have "process_row s f c ov (rows ! i) = Inr (rows' ! i, as ! i)" using p by blast
  from process_row_keys [OF this] show
    "map (\<lambda>a. (a_Z a, a_A a)) as ! i = map (\<lambda>r. (b_Z r, b_A r)) rows' ! i"
    using i p by simp
qed

lemma ex_env_rc: "ex_env\<lparr>require_complete := False\<rparr> = ex_env"
  by (simp add: ex_env_def)

lemma ex_read_c:
  "read_csvs [(''c.csv'', ex_csv_c)] =
     \<lparr>f_columns = [''Z'', ''A'', ''logft'', ''br_pct'', ''br'', ''__file__''],
      f_rows = map (\<lambda>r. (''__file__'', str_cell ''c.csv'') # zip (header ex_csv_c) r)
                 (lines ex_csv_c)\<rparr>"
  by (simp add: read_csvs_def stable_sort_by_def with_file_def union_columns_def ex_csv_c_def)

lemma ex_norm_c:
  "normalize_candidates (read_csvs [(''c.csv'', ex_csv_c)]) =
     Inr [\<lparr>c_Z = 19, c_A = 44, c_logft = 5.3, c_mode = [], c_br_pct = Some 50,
           c_source = ''c.csv''\<rparr>,
          \<lparr>c_Z = 19, c_A = 44, c_logft = 6.1, c_mode = [], c_br_pct = Some 30,
           c_source = ''c.csv''\<rparr>]"
  unfolding ex_read_c
  by (simp add: normalize_candidates_def empty_frame_def rename_def canon_candidate_def
        ambiguous_def is_integral_def complete_row_def get_cell_def candidate_of_row_def
        candidate_br_pct_def candidate_source_def str_defs ex_csv_c_def num_cell_def
        str_cell_def nan_cell_def)

subsection \<open>Columns of the concatenated frame, and the schema check\<close>

lemma set_union_columns: "set (union_columns cs) = set cs"
  by (simp add: union_columns_def)

lemma columns_read_csvs:
  assumes "found \<noteq> []"
  shows "set (f_columns (read_csvs found)) =
           insert ''__file__'' (\<Union>(path, f) \<in> set found. set (header f))"
proof -
  let ?files = "stable_sort_by (\<lambda>a b. fst a \<le> fst b) found"
  have ne: "?files \<noteq> []" using assms by (simp add: stable_sort_by_Nil_iff)
  have s: "set ?files = set found" by (rule set_stable_sort_by)
  have "set (f_columns (read_csvs found)) =
          (\<Union>pf \<in> set ?files. set (f_columns (case pf of (path, f) \<Rightarrow> with_file path f)))"
    using ne by (simp add: read_csvs_def Let_def set_union_columns)
  also have "\<dots> = (\<Union>(path, f) \<in> set found. insert ''__file__'' (set (header f)))"
    unfolding s by (auto simp: with_file_def set_union_columns)
  also have "\<dots> = insert ''__file__'' (\<Union>(path, f) \<in> set found. set (header f))"
    using assms by (cases found) auto
  finally show ?thesis .
qed

lemma read_csvs_Nil: "read_csvs [] = \<lparr>f_columns = [], f_rows = []\<rparr>"
  by (simp add: read_csvs_def stable_sort_by_def)

lemma canon_candidate_file: "canon_candidate ''__file__'' = ''__file__''"
  by (simp add: canon_candidate_def str_defs)

lemma normalize_candidates_missing:
  assumes "\<not> empty_frame df" and "col \<in> {''Z'', ''A'', ''logft''}"
    and "col \<notin> canon_candidate ` set (f_columns df)"
  shows "normalize_candidates df = Inl RuntimeError"
  using assms by (auto simp: normalize_candidates_def Let_def rename_def)

lemma normalize_overrides_missing:
  assumes "col \<in> {''Z'', ''A'', ''logft''}" and "col \<notin> canon_override ` set (header f)"
  shows "normalize_overrides (Some (path, f)) = Inl RuntimeError"
  using assms by (auto simp: normalize_overrides_def Let_def rename_def frame_of_csv_def)

lemma ex_read_ab:
  "read_csvs [(''b.csv'', ex_csv_b), (''a.csv'', ex_csv_a)] =
     \<lparr>f_columns = [''Z'', ''A'', ''logft'', ''mode'', ''br_pct'', ''__file__''],
      f_rows = map (\<lambda>r. (''__file__'', str_cell ''a.csv'') # zip (header ex_csv_a) r)
                 (lines ex_csv_a)
               @ map (\<lambda>r. (''__file__'', str_cell ''b.csv'') # zip (header ex_csv_b) r)
                 (lines ex_csv_b)\<rparr>"
  by (simp add: read_csvs_def stable_sort_by_def with_file_def union_columns_def ex_csv_a_def
        ex_csv_b_def)

lemma ex_norm_ab:
  "normalize_candidates (read_csvs [(''b.csv'', ex_csv_b), (''a.csv'', ex_csv_a)])
     = Inr [ex_k1, ex_k2]"
  unfolding ex_read_ab
  by (simp add: normalize_candidates_def empty_frame_def rename_def canon_candidate_def
        ambiguous_def is_integral_def complete_row_def get_cell_def candidate_of_row_def
        candidate_br_pct_def candidate_source_def str_defs ex_csv_a_def ex_csv_b_def
        num_cell_def str_cell_def nan_cell_def ex_defs)

lemma ex_reaches_ab:
  "reaches_loop sort1 (ex_env\<lparr>logft_files := [(''b.csv'', ex_csv_b), (''a.csv'', ex_csv_a)]\<rparr>)
     ex_table [ex_r1, ex_r2\<lparr>b_logft := Some 5.3\<rparr>, ex_r3] [ex_audit_1, ex_audit_2, ex_audit_3]"
proof -
  have rows: "t_rows ex_table = [ex_r1, ex_r2, ex_r3]" by (simp add: ex_table_def)
  have ens: "ensure_logft ex_table = ex_table" by (simp add: ensure_logft_def ex_table_def)
  have req: "set required_columns \<subseteq> set (t_columns ex_table)"
    by (simp add: required_columns_def ex_table_def)
  have ne: "\<not> empty_frame (read_csvs [(''b.csv'', ex_csv_b), (''a.csv'', ex_csv_a)])"
    unfolding ex_read_ab by (simp add: empty_frame_def ex_csv_a_def)
  show ?thesis
    unfolding reaches_loop_def
    apply (rule exI [of _ ex_table], rule exI [of _ "[ex_k1, ex_k2]"], rule exI [of _ "[]"])
    using req ne ens ex_norm_ab ex_loop [of sort1]
    by (simp add: ex_env_def rows normalize_overrides_def)
qed

subsection \<open>The sorting network\<close>

lemmas ex_t_defs = ex_t1_def ex_t2_def ex_t3_def ex_t4_def
lemmas simd_defs = simd_sort1_def network4_def cmp_exchange_def lane_less_def


lemma simd_four: "simd_sort1 [ex_t1, ex_t2, ex_t3, ex_t4] = [ex_t4, ex_t3, ex_t1, ex_t2]"
  by (simp add: simd_defs ex_t_defs)

lemma simd_two: "simd_sort1 [ex_k3, ex_k4] = [ex_k3, ex_k4]"
  by (simp add: simd_defs ex_defs)

lemma length_le4_cases:
  assumes "length (xs :: 'a list) \<le> 4"
  obtains "xs = []" | a where "xs = [a]" | a b where "xs = [a, b]"
    | a b c where "xs = [a, b, c]" | a b c d where "xs = [a, b, c, d]"
proof -
  consider "length xs = 0" | "length xs = 1" | "length xs = 2" | "length xs = 3" | "length xs = 4"
    using assms by linarith
  then show ?thesis
  proof cases
    case 1 then show ?thesis using that(1) by simp
  next
    case 2 then show ?thesis using that(2) by (auto simp: length_Suc_conv)
  next
    case 3 then show ?thesis using that(3) by (auto simp: length_Suc_conv numeral_2_eq_2)
  next
    case 4 then show ?thesis using that(4) by (auto simp: length_Suc_conv numeral_3_eq_3)
  next
    case 5 then show ?thesis using that(5)
      by (auto simp: length_Suc_conv eval_nat_numeral)
  qed
qed

lemma simd_sort1_sorts_small:
  assumes "length rows \<le> 4"
  shows "mset (simd_sort1 rows) = mset rows \<and> sorted (map c_logft (simd_sort1 rows))"
  using assms
proof (cases rows rule: length_le4_cases)
  case 1 then show ?thesis by (simp add: simd_defs)
next
  case (2 a) then show ?thesis by (simp add: simd_defs)
next
  case (3 a b) then show ?thesis by (auto simp: simd_defs)
next
  case (4 a b c) then show ?thesis by (auto simp: simd_defs)
next
  case (5 a b c d) then show ?thesis by (auto simp: simd_defs)
qed

lemma sorts_by_logft_simd_sort1: "sorts_by_logft simd_sort1"
  unfolding sorts_by_logft_def
proof (intro allI)
  fix xs :: "candidate list"
  show "mset (simd_sort1 xs) = mset xs \<and> sorted (map c_logft (simd_sort1 xs))"
  proof (cases "length xs \<le> 4")
    case True then show ?thesis by (rule simd_sort1_sorts_small)
  next
    case False
    then have "simd_sort1 xs = stable_sort1 xs" by (simp add: simd_sort1_def)
    then show ?thesis using sorts_by_logft_stable_sort1 unfolding sorts_by_logft_def by simp
  qed
qed

section \<open>The claims\<close>

subsection \<open>C1: an override wins\<close>

text \<open>
  Claim C1.  When at least one override row matches the key (Z, A), the resolution returns
  the first matching override in load order: its logft, the method \<^verbatim>\<open>override\<close>, its
  source, mode and note.  This holds whatever the candidate rows, the primary mode and
  the single-column sort are; the candidates are not looked at.
\<close>

theorem override_precedence:
  assumes "overrides = ps @ r # ss"
    and "o_Z r = Z \<and> o_A r = A"
    and "\<forall>q \<in> set ps. \<not> (o_Z q = Z \<and> o_A q = A)"
  shows "choose_logft_for_row sort1 Z A beta_mode candidates overrides =
           Inr (Some (o_logft r),
                \<lparr>p_method = M_override, p_source = o_source r, p_cand_mode = o_mode r,
                 p_br_pct_used = None, p_note = o_note r\<rparr>)"
proof -
  have "filter (\<lambda>r. o_Z r = Z \<and> o_A r = A) ps = []"
    using assms(3) by (simp add: filter_empty_conv)
  then have "filter (\<lambda>r. o_Z r = Z \<and> o_A r = A) overrides
               = r # filter (\<lambda>r. o_Z r = Z \<and> o_A r = A) ss"
    using assms(1,2) by simp
  then show ?thesis
    by (simp add: choose_logft_for_row_def prov_override_def)
qed

theorem override_precedence_witness:
  "choose_logft_for_row reversing_sort1 19 44 ''beta-'' [ex_k1, ex_k2] [ex_o0, ex_o1, ex_o2] =
     Inr (Some 4.9,
          \<lparr>p_method = M_override, p_source = ''ovr.csv'', p_cand_mode = [],
           p_br_pct_used = None, p_note = ''first''\<rparr>)"
  using override_precedence [of "[ex_o0, ex_o1, ex_o2]" "[ex_o0]" ex_o1 "[ex_o2]" 19 44
      reversing_sort1 "''beta-''" "[ex_k1, ex_k2]"]
  by (simp add: ex_defs)


subsection \<open>C3: the tie-break\<close>

text \<open>
  Claim C3.  No override matches and at least one candidate does; \<open>kept\<close> are the
  candidates that the mode scoring retains.  If one of them has a known branching
  percentage, the winner is a retained candidate with a known percentage \<open>p\<close> that no
  other known percentage exceeds, and among the candidates with percentage \<open>p\<close> it has
  the smallest logft; the method is \<^verbatim>\<open>candidate_highest_br\<close>.  Hence a candidate without
  a percentage never wins over one with a percentage.  If no retained candidate has a
  percentage, the winner is a retained candidate of smallest logft and the method is
  \<^verbatim>\<open>candidate_min_logft\<close>; this needs of the single-column sort only that it sorts.
\<close>

theorem tie_break:
  assumes "filter (\<lambda>r. o_Z r = Z \<and> o_A r = A) overrides = []"
    and "matching Z A candidates \<noteq> []"
    and "kept = retained beta_mode (matching Z A candidates)"
    and "sorts_by_logft sort1"
  shows "if \<exists>c \<in> set kept. c_br_pct c \<noteq> None
         then \<exists>w \<in> set kept. \<exists>p. c_br_pct w = Some p
                \<and> choose_logft_for_row sort1 Z A beta_mode candidates overrides =
                    Inr (Some (c_logft w),
                         \<lparr>p_method = M_candidate_highest_br, p_source = c_source w,
                          p_cand_mode = c_mode w, p_br_pct_used = Some p, p_note = []\<rparr>)
                \<and> (\<forall>c \<in> set kept. \<forall>q. c_br_pct c = Some q \<longrightarrow>
                      q \<le> p \<and> (q = p \<longrightarrow> c_logft w \<le> c_logft c))
         else \<exists>w \<in> set kept.
                choose_logft_for_row sort1 Z A beta_mode candidates overrides =
                    Inr (Some (c_logft w),
                         \<lparr>p_method = M_candidate_min_logft, p_source = c_source w,
                          p_cand_mode = c_mode w, p_br_pct_used = None, p_note = []\<rparr>)
                \<and> (\<forall>c \<in> set kept. c_logft w \<le> c_logft c)"
proof (cases "\<exists>c \<in> set kept. c_br_pct c \<noteq> None")
  case True
  have ne: "kept \<noteq> []" using assms(2,3) by (simp add: retained_nonempty)
  let ?w = "hd (stable_sort_by br_logft_le kept)"
  from hd_stable_sort_by [OF total_preorder_br_logft_le ne] obtain ps ss where
    k: "kept = ps @ ?w # ss" and ps: "\<forall>y \<in> set ps. \<not> br_logft_le y ?w"
    and ss: "\<forall>y \<in> set ss. br_logft_le ?w y" by blast
  have win: "w \<in> set kept" if "w = ?w" for w using k that by (metis in_set_conv_decomp)
  have le: "br_logft_le ?w y" if "y \<in> set kept" for y
  proof -
    have "y \<in> set ps \<or> y = ?w \<or> y \<in> set ss"
      using that k by (metis Un_iff set_ConsD set_append)
    then show ?thesis
      using ps ss total_preorder_br_logft_le unfolding total_preorder_def by blast
  qed
  from True obtain c0 where c0: "c0 \<in> set kept" "c_br_pct c0 \<noteq> None" by blast
  have "c_br_pct ?w \<noteq> None"
    using le [OF c0(1)] c0(2)
    by (auto simp: br_logft_le_def less_option_def split: option.splits)
  then obtain p where p: "c_br_pct ?w = Some p" by blast
  have best: "q \<le> p \<and> (q = p \<longrightarrow> c_logft ?w \<le> c_logft c)"
    if "c \<in> set kept" "c_br_pct c = Some q" for c q
    using le [OF that(1)] that(2) p
    by (auto simp: br_logft_le_def less_option_def split: option.splits)
  have "choose_logft_for_row sort1 Z A beta_mode candidates overrides =
          Inr (Some (c_logft ?w), prov_highest_br ?w)"
    using assms(1,2) True ne
    by (simp add: choose_logft_for_row_def Let_def assms(3) [symmetric] iloc0_stable_sort_by)
  then have "choose_logft_for_row sort1 Z A beta_mode candidates overrides =
          Inr (Some (c_logft ?w),
               \<lparr>p_method = M_candidate_highest_br, p_source = c_source ?w,
                p_cand_mode = c_mode ?w, p_br_pct_used = Some p, p_note = []\<rparr>)"
    by (simp add: prov_highest_br_def p)
  with p best win [OF refl] True show ?thesis by auto
next
  case False
  have ne: "kept \<noteq> []" using assms(2,3) by (simp add: retained_nonempty)
  have m: "mset (sort1 kept) = mset kept" and s: "sorted (map c_logft (sort1 kept))"
    using assms(4) unfolding sorts_by_logft_def by auto
  have sne: "sort1 kept \<noteq> []" using m ne by (metis mset_zero_iff)
  then obtain w rest where wr: "sort1 kept = w # rest" by (cases "sort1 kept") auto
  have set_eq: "set (sort1 kept) = set kept" using m by (metis set_mset_mset)
  have win: "w \<in> set kept" using wr set_eq by (metis list.set_intros(1))
  have least: "c_logft w \<le> c_logft c" if "c \<in> set kept" for c
  proof -
    have "c \<in> set (w # rest)" using that set_eq wr by simp
    then show ?thesis using s unfolding wr by auto
  qed
  have "choose_logft_for_row sort1 Z A beta_mode candidates overrides =
          Inr (Some (c_logft w), prov_min_logft w)"
    using assms(1,2) False ne wr
    by (simp add: choose_logft_for_row_def Let_def assms(3) [symmetric] iloc0_def)
  then show ?thesis using False win least by (auto simp: prov_min_logft_def)
qed

theorem tie_break_witness:
  "filter (\<lambda>r. o_Z r = 19 \<and> o_A r = 44) [ex_o0] = []
   \<and> matching 19 44 [ex_k3, ex_k2, ex_k1] \<noteq> []
   \<and> sorts_by_logft stable_sort1
   \<and> choose_logft_for_row stable_sort1 19 44 [] [ex_k3, ex_k2, ex_k1] [ex_o0] =
       Inr (Some 5.3,
            \<lparr>p_method = M_candidate_highest_br, p_source = ''a.csv'',
             p_cand_mode = ''beta-'', p_br_pct_used = Some 80, p_note = []\<rparr>)
   \<and> choose_logft_for_row stable_sort1 19 44 ''beta-'' [ex_k5, ex_k3] [ex_o0] =
       Inr (Some 5.3,
            \<lparr>p_method = M_candidate_min_logft, p_source = ''a.csv'',
             p_cand_mode = ''beta-'', p_br_pct_used = None, p_note = []\<rparr>)"
proof -
  have h1: "filter (\<lambda>r. o_Z r = 19 \<and> o_A r = 44) [ex_o0] = []"
    by (simp add: ex_defs)
  have h2: "matching 19 44 [ex_k3, ex_k2, ex_k1] \<noteq> []"
    by (simp add: matching_def ex_defs)
  have h2': "matching 19 44 [ex_k5, ex_k3] \<noteq> []"
    by (simp add: matching_def ex_defs)
  have k: "retained [] (matching 19 44 [ex_k3, ex_k2, ex_k1]) = [ex_k3, ex_k2, ex_k1]"
    by (simp add: matching_def retained_def mode_match_score_def str_defs ex_defs)
  have k': "retained ''beta-'' (matching 19 44 [ex_k5, ex_k3]) = [ex_k5, ex_k3]"
    by (simp add: matching_def retained_def mode_match_score_def str_defs ex_defs)
  note a = tie_break [OF h1 h2 k [symmetric] sorts_by_logft_stable_sort1]
  note b = tie_break [OF h1 h2' k' [symmetric] sorts_by_logft_stable_sort1]
  have a': "choose_logft_for_row stable_sort1 19 44 [] [ex_k3, ex_k2, ex_k1] [ex_o0] =
       Inr (Some 5.3,
            \<lparr>p_method = M_candidate_highest_br, p_source = ''a.csv'',
             p_cand_mode = ''beta-'', p_br_pct_used = Some 80, p_note = []\<rparr>)"
    using a by (auto simp: ex_defs)
  have b': "choose_logft_for_row stable_sort1 19 44 ''beta-'' [ex_k5, ex_k3] [ex_o0] =
       Inr (Some 5.3,
            \<lparr>p_method = M_candidate_min_logft, p_source = ''a.csv'',
             p_cand_mode = ''beta-'', p_br_pct_used = None, p_note = []\<rparr>)"
    using b by (auto simp: ex_defs)
  show ?thesis using h1 h2 sorts_by_logft_stable_sort1 a' b' by blast
qed

subsection \<open>C4: the mode score and what it retains\<close>

text \<open>
  Claim C4, as amended.  The score is computed on the two strings trimmed of white space
  at both ends and lower-cased: 2 if the primary mode so normalised is not empty and
  occurs in the candidate mode, else 1 for the compatibility pairs, else 0; a primary
  mode that is empty after trimming scores 0.  The resolution retains all candidates when
  every score is 0, and otherwise exactly the candidates whose score no other
  candidate's exceeds, in their order.
\<close>

theorem mode_score_and_retention:
  "mode_match_score primary_mode cand_mode =
     (let b = lower (strip primary_mode); c = lower (strip cand_mode)
      in if b \<noteq> [] \<and> sublist b c then 2
         else if (b = ''ec'' \<and> sublist ''ec'' c)
                 \<or> (b = ''beta+'' \<and> (sublist ''beta+'' c \<or> sublist ''ec'' c))
                 \<or> (b = ''beta-'' \<and> sublist ''beta-'' c) then 1
         else 0)
   \<and> (strip primary_mode = [] \<longrightarrow> mode_match_score primary_mode cand_mode = 0)
   \<and> (cands \<noteq> [] \<longrightarrow>
        retained primary_mode cands =
          (if \<forall>x \<in> set cands. mode_match_score primary_mode (c_mode x) = 0 then cands
           else filter (\<lambda>x. \<forall>y \<in> set cands. mode_match_score primary_mode (c_mode y)
                                              \<le> mode_match_score primary_mode (c_mode x))
                  cands))"
proof (intro conjI impI)
  show "mode_match_score primary_mode cand_mode =
     (let b = lower (strip primary_mode); c = lower (strip cand_mode)
      in if b \<noteq> [] \<and> sublist b c then 2
         else if (b = ''ec'' \<and> sublist ''ec'' c)
                 \<or> (b = ''beta+'' \<and> (sublist ''beta+'' c \<or> sublist ''ec'' c))
                 \<or> (b = ''beta-'' \<and> sublist ''beta-'' c) then 1
         else 0)"
    unfolding mode_match_score_def Let_def contains_sublist by auto
next
  assume "strip primary_mode = []"
  then show "mode_match_score primary_mode cand_mode = 0"
    by (simp add: mode_match_score_def lower_def)
next
  assume ne: "cands \<noteq> []"
  let ?f = "\<lambda>c::candidate. mode_match_score primary_mode (c_mode c)"
  let ?M = "Max (set (map ?f cands))"
  have nonneg: "0 \<le> ?f x" for x by (simp add: mode_match_score_def Let_def)
  have fin: "finite (set (map ?f cands))" and ne': "set (map ?f cands) \<noteq> {}"
    using ne by auto
  have M_in: "?M \<in> set (map ?f cands)" using Max_in [OF fin ne'] .
  have M_ge: "?f y \<le> ?M" if "y \<in> set cands" for y
    using that by (intro Max_ge) auto
  have eq_iff: "(?f x = ?M) = (\<forall>y \<in> set cands. ?f y \<le> ?f x)" if "x \<in> set cands" for x
  proof
    assume "?f x = ?M" then show "\<forall>y \<in> set cands. ?f y \<le> ?f x" using M_ge by auto
  next
    assume a: "\<forall>y \<in> set cands. ?f y \<le> ?f x"
    from M_in obtain z where "z \<in> set cands" "?f z = ?M" by auto
    then have "?M \<le> ?f x" using a by auto
    then show "?f x = ?M" using M_ge [OF that] by simp
  qed
  have zero_iff: "(\<forall>x \<in> set cands. ?f x = 0) = (\<not> ?M > 0)"
  proof
    assume "\<forall>x \<in> set cands. ?f x = 0"
    then show "\<not> ?M > 0" using M_in by auto
  next
    assume "\<not> ?M > 0"
    then show "\<forall>x \<in> set cands. ?f x = 0" using M_ge nonneg by (metis not_less order.antisym order.trans)
  qed
  have flt: "filter (\<lambda>c. ?f c = ?M) cands = filter (\<lambda>x. \<forall>y \<in> set cands. ?f y \<le> ?f x) cands"
    by (rule filter_cong) (use eq_iff in blast)+
  show "retained primary_mode cands =
          (if \<forall>x \<in> set cands. ?f x = 0 then cands
           else filter (\<lambda>x. \<forall>y \<in> set cands. ?f y \<le> ?f x) cands)"
    unfolding retained_def Let_def zero_iff flt by simp
qed

text \<open>Witness of C4: a blank primary mode scores 0, \<^verbatim>\<open>Beta+\<close> against \<^verbatim>\<open>EC\<close> scores 1,
  \<^verbatim>\<open>beta-\<close> keeps the two candidates of that mode, and a mode that matches nothing keeps
  all three.\<close>

theorem mode_score_and_retention_witness:
  "strip ''  '' = [] \<and> [ex_k2, ex_k1, ex_k3] \<noteq> []
   \<and> mode_match_score ''  '' ''a  b'' = 0
   \<and> mode_match_score ''Beta+'' ''EC'' = 1
   \<and> retained ''beta-'' [ex_k2, ex_k1, ex_k3] = [ex_k1, ex_k3]
   \<and> retained ''alpha'' [ex_k2, ex_k1, ex_k3] = [ex_k2, ex_k1, ex_k3]"
proof -
  have s: "strip ''  '' = []" by (simp add: str_defs)
  have n: "[ex_k2, ex_k1, ex_k3] \<noteq> []" by simp
  note t = mode_score_and_retention [of "''  ''" "''a  b''" "[ex_k2, ex_k1, ex_k3]"]
  have z: "mode_match_score ''  '' ''a  b'' = 0" using t s by blast
  have m: "mode_match_score ''Beta+'' ''EC'' = 1"
    using mode_score_and_retention [of "''Beta+''" "''EC''" "[]"]
    by (simp add: str_defs sublist_Cons_right)
  have sc: "mode_match_score ''beta-'' (c_mode ex_k2) = 0"
     "mode_match_score ''beta-'' (c_mode ex_k1) = 2" "mode_match_score ''beta-'' (c_mode ex_k3) = 2"
     "mode_match_score ''alpha'' (c_mode ex_k2) = 0"
     "mode_match_score ''alpha'' (c_mode ex_k1) = 0" "mode_match_score ''alpha'' (c_mode ex_k3) = 0"
    by (simp_all add: mode_match_score_def str_defs ex_defs)
  have r: "retained ''beta-'' [ex_k2, ex_k1, ex_k3] = [ex_k1, ex_k3]"
    using mode_score_and_retention [of "''beta-''" "''x''" "[ex_k2, ex_k1, ex_k3]"] n
    by (simp add: sc)
  have r': "retained ''alpha'' [ex_k2, ex_k1, ex_k3] = [ex_k2, ex_k1, ex_k3]"
    using mode_score_and_retention [of "''alpha''" "''x''" "[ex_k2, ex_k1, ex_k3]"] n
    by (simp add: sc)
  show ?thesis using s n z m r r' by blast
qed

text \<open>Counterexample to C4 as stated (lower-casing only): the primary mode \<^verbatim>\<open>"ec "\<close>
  with a trailing blank scores 2 against \<^verbatim>\<open>"ec"\<close>, because the script trims it first;
  lower-cased only, it does not occur in \<^verbatim>\<open>"ec"\<close> and is none of the compatibility
  pairs, which is score 0.\<close>

theorem mode_score_counterexample:
  "mode_match_score ''ec '' ''ec'' = 2 \<and> claimed_mode_score ''ec '' ''ec'' = 0"
  by (simp add: mode_match_score_def claimed_mode_score_def str_defs sublist_Cons_right)

subsection \<open>C2: an existing logft is kept\<close>

text \<open>
  Claim C2.  The loop has gone over the rows of the table; \<open>rows'\<close> are the rows
  afterwards and \<open>audit_rows\<close> the audit, row by row.  For a row that has a logft in a run
  without force, the row is unchanged, the audit row has the method \<^verbatim>\<open>kept_existing\<close> and
  the same logft, and the outcome is the same whatever the candidates, the overrides and
  the sort are: the resolution is not consulted.  For any row, forced or not, for which
  the resolution returns no value, the row is unchanged.  A row changes only by receiving
  the value that the resolution returned, so a logft is never blanked.
\<close>

theorem logft_kept_unless_resolved:
  assumes "process_rows sort1 frc candidates overrides rows = Inr (rows', audit_rows)"
    and "i < length rows"
  shows "(b_logft (rows ! i) \<noteq> None \<and> \<not> frc \<longrightarrow>
            rows' ! i = rows ! i
            \<and> audit_rows ! i =
                \<lparr>a_Z = b_Z (rows ! i), a_A = b_A (rows ! i), a_logft = b_logft (rows ! i),
                 a_method = M_kept_existing, a_source = [],
                 a_beta_mode = strip (b_mode (rows ! i)), a_cand_mode = [],
                 a_br_pct_used = None, a_note = []\<rparr>
            \<and> (\<forall>sort1' candidates' overrides'.
                  process_row sort1' frc candidates' overrides' (rows ! i) =
                    Inr (rows' ! i, audit_rows ! i)))
         \<and> ((\<exists>pr. choose_logft_for_row sort1 (b_Z (rows ! i)) (b_A (rows ! i))
                    (strip (b_mode (rows ! i))) candidates overrides = Inr (None, pr)) \<longrightarrow>
              rows' ! i = rows ! i)
         \<and> (rows' ! i \<noteq> rows ! i \<longrightarrow>
              (\<exists>v pr. choose_logft_for_row sort1 (b_Z (rows ! i)) (b_A (rows ! i))
                        (strip (b_mode (rows ! i))) candidates overrides = Inr (Some v, pr)
                      \<and> rows' ! i = (rows ! i)\<lparr>b_logft := Some v\<rparr>))
         \<and> (b_logft (rows ! i) \<noteq> None \<longrightarrow> b_logft (rows' ! i) \<noteq> None)"
proof -
  have p: "process_row sort1 frc candidates overrides (rows ! i) = Inr (rows' ! i, audit_rows ! i)"
    using process_rows_Inr [OF assms(1)] assms(2) by blast
  show ?thesis
  proof (cases "has_cur (rows ! i) \<and> \<not> frc")
    case True
    then have "rows' ! i = rows ! i" "audit_rows ! i = audit_kept (rows ! i)"
      using p by (auto simp: process_row_def)
    then show ?thesis
      using True by (auto simp: process_row_def has_cur_def audit_kept_def)
  next
    case False
    show ?thesis
    proof (cases "choose_logft_for_row sort1 (b_Z (rows ! i)) (b_A (rows ! i))
                    (strip (b_mode (rows ! i))) candidates overrides")
      case (Inl e)
      then show ?thesis using p False by (simp add: process_row_def)
    next
      case (Inr res)
      obtain v pr where res: "res = (v, pr)" by (cases res)
      show ?thesis
      proof (cases v)
        case None
        then have "rows' ! i = rows ! i"
          using p False Inr res by (simp add: process_row_def)
        then show ?thesis using False Inr res None by (auto simp: has_cur_def)
      next
        case (Some x)
        then have "rows' ! i = (rows ! i)\<lparr>b_logft := Some x\<rparr>"
          using p False Inr res by (simp add: process_row_def)
        then show ?thesis using False Inr res Some by (auto simp: has_cur_def)
      qed
    qed
  qed
qed

text \<open>Witness of C2 on the example table: the third row has a logft and is kept, also
  with other candidates, overrides and sort; the first row finds nothing and stays.\<close>

theorem logft_kept_unless_resolved_witness:
  "process_rows stable_sort1 False [ex_k1, ex_k2] [] [ex_r1, ex_r2, ex_r3] =
     Inr ([ex_r1, ex_r2\<lparr>b_logft := Some 5.3\<rparr>, ex_r3], [ex_audit_1, ex_audit_2, ex_audit_3])
   \<and> b_logft ex_r3 \<noteq> None
   \<and> choose_logft_for_row stable_sort1 20 40 ''beta-'' [ex_k1, ex_k2] [] = Inr (None, prov_missing)
   \<and> process_row reversing_sort1 False [] [ex_o1] ex_r3 = Inr (ex_r3, ex_audit_3)"
proof -
  note l = ex_loop [of stable_sort1]
  have h: "b_logft ex_r3 \<noteq> None" by (simp add: ex_r3_def)
  have c: "choose_logft_for_row stable_sort1 20 40 ''beta-'' [ex_k1, ex_k2] [] = Inr (None, prov_missing)"
    by (simp add: choose_defs ex_defs)
  have "(2::nat) < length [ex_r1, ex_r2, ex_r3]" by simp
  from logft_kept_unless_resolved [OF l this] h
  have "process_row reversing_sort1 False [] [ex_o1] ex_r3 = Inr (ex_r3, ex_audit_3)"
    by simp
  with l h c show ?thesis by blast
qed

subsection \<open>C6: a second run without force changes nothing\<close>

text \<open>
  Claim C6.  A run without force wrote the table \<open>T1\<close>.  A second run over \<open>T1\<close>, with
  the same candidate and override sources, writes \<open>T1\<close> again.  Its audit has one row for
  every row of \<open>T1\<close>: method \<^verbatim>\<open>kept_existing\<close> with the logft of the row where the row has
  one, and \<^verbatim>\<open>missing\<close> where it has none.
\<close>

theorem idempotent_without_force:
  assumes "\<not> force e" and "beta_written (main sort1 e) = Some T1"
  shows "beta_written (main sort1 (e\<lparr>beta_file := Some T1\<rparr>)) = Some T1
         \<and> (t_rows T1 \<noteq> [] \<longrightarrow>
              (\<exists>au. audit_written (main sort1 (e\<lparr>beta_file := Some T1\<rparr>)) = Some au
                 \<and> mset au =
                     mset (map (\<lambda>r. \<lparr>a_Z = b_Z r, a_A = b_A r, a_logft = b_logft r,
                                     a_method = (if b_logft r \<noteq> None then M_kept_existing
                                                 else M_missing),
                                     a_source = [], a_beta_mode = strip (b_mode r),
                                     a_cand_mode = [], a_br_pct_used = None, a_note = []\<rparr>)
                            (t_rows T1))))"
proof -
  let ?e2 = "e\<lparr>beta_file := Some T1\<rparr>"
  let ?second = "\<lambda>r. if b_logft r \<noteq> None then audit_kept r else audit_of r None prov_missing"
  from main_written [OF assms(2)] obtain beta rows' audit_rows where
    rl: "reaches_loop sort1 e beta rows' audit_rows" and T1: "T1 = beta\<lparr>t_rows := rows'\<rparr>"
    by blast
  from rl obtain beta0 candidates overrides where
    b0: "beta_file e = Some beta0" "set required_columns \<subseteq> set (t_columns beta0)"
      "beta = ensure_logft beta0"
    and src: "\<not> (empty_frame (read_csvs (logft_files e)) \<and> overrides_file e = None)"
      "(if \<not> empty_frame (read_csvs (logft_files e))
        then normalize_candidates (read_csvs (logft_files e)) else Inr []) = Inr candidates"
      "normalize_overrides (overrides_file e) = Inr overrides"
    and loop: "process_rows sort1 (force e) candidates overrides (t_rows beta) = Inr (rows', audit_rows)"
    unfolding reaches_loop_def by blast
  have cols: "set (t_columns beta0) \<subseteq> set (t_columns beta)" "''logft'' \<in> set (t_columns beta)"
    using b0(3) by (auto simp: ensure_logft_def)
  have ens: "ensure_logft T1 = T1" using cols(2) T1 by (simp add: ensure_logft_def)
  have req: "set required_columns \<subseteq> set (t_columns T1)" using b0(2) cols(1) T1 by auto
  note p = process_rows_Inr [OF loop]
  have loop2: "process_rows sort1 (force ?e2) candidates overrides (t_rows T1)
                 = Inr (rows', map ?second rows')"
  proof (rule process_rows_intro)
    show "length rows' = length (t_rows T1)" using T1 by simp
    show "length (map ?second rows') = length (t_rows T1)" using T1 by simp
    show "\<forall>i < length (t_rows T1).
            process_row sort1 (force ?e2) candidates overrides (t_rows T1 ! i)
              = Inr (rows' ! i, map ?second rows' ! i)"
    proof (intro allI impI)
      fix i assume "i < length (t_rows T1)"
      then have i: "i < length rows'" "i < length (t_rows beta)" using T1 p by auto
      then have "process_row sort1 False candidates overrides (t_rows beta ! i)
                   = Inr (rows' ! i, audit_rows ! i)"
        using p assms(1) by auto
      from process_row_again [OF this] show
        "process_row sort1 (force ?e2) candidates overrides (t_rows T1 ! i)
              = Inr (rows' ! i, map ?second rows' ! i)"
        using i assms(1) T1 by simp
    qed
  qed
  have rl2: "reaches_loop sort1 ?e2 T1 rows' (map ?second rows')"
    unfolding reaches_loop_def
    apply (rule exI [of _ T1], rule exI [of _ candidates], rule exI [of _ overrides])
    using req ens src loop2 by (auto split: if_splits)
  have T1': "T1\<lparr>t_rows := rows'\<rparr> = T1" using T1 by simp
  have sec: "?second = (\<lambda>r. \<lparr>a_Z = b_Z r, a_A = b_A r, a_logft = b_logft r,
                                     a_method = (if b_logft r \<noteq> None then M_kept_existing
                                                 else M_missing),
                                     a_source = [], a_beta_mode = strip (b_mode r),
                                     a_cand_mode = [], a_br_pct_used = None, a_note = []\<rparr>)"
    by (rule ext) (simp add: audit_kept_def audit_of_def prov_missing_def)
  have rows: "t_rows T1 = rows'" using T1 by simp
  show ?thesis
    unfolding main_after_loop [OF rl2] T1' rows sec [symmetric]
    by (simp add: mset_stable_sort_by)
qed

text \<open>Witness of C6: the example run and a second run over what it wrote.\<close>

theorem idempotent_without_force_witness:
  "\<not> force ex_env
   \<and> beta_written (main stable_sort1 ex_env) = Some ex_table_out
   \<and> beta_written (main stable_sort1 (ex_env\<lparr>beta_file := Some ex_table_out\<rparr>)) = Some ex_table_out
   \<and> audit_written (main stable_sort1 (ex_env\<lparr>beta_file := Some ex_table_out\<rparr>)) \<noteq> None"
proof -
  have f: "\<not> force ex_env" by (simp add: ex_env_def)
  have w: "beta_written (main stable_sort1 ex_env) = Some ex_table_out"
    using ex_main [of stable_sort1 False] by (simp add: ex_env_rc)
  have ne: "t_rows ex_table_out \<noteq> []" by (simp add: ex_table_out_def)
  from idempotent_without_force [OF f w, THEN conjunct1]
    idempotent_without_force [OF f w, THEN conjunct2, rule_format, OF ne]
  have "beta_written (main stable_sort1 (ex_env\<lparr>beta_file := Some ex_table_out\<rparr>)) = Some ex_table_out"
    and "audit_written (main stable_sort1 (ex_env\<lparr>beta_file := Some ex_table_out\<rparr>)) \<noteq> None"
    by auto
  with f w show ?thesis by blast
qed

subsection \<open>C8: the exit codes\<close>




subsection \<open>C10: the audit is sorted\<close>

text \<open>
  Claim C10.  The audit that a run writes is in ascending order of Z, then of A, and
  holds the same keys (Z, A) as the rows of the written table, each as often.  The order
  of the audit differs in general from the order of the table: there is a run where the
  two sequences of keys differ (the example run).
\<close>

theorem audit_sorted_by_key:
  "(\<forall>T au. beta_written (main sort1 e) = Some T \<and> audit_written (main sort1 e) = Some au \<longrightarrow>
       sorted_wrt (\<lambda>a b. a_Z a < a_Z b \<or> (a_Z a = a_Z b \<and> a_A a \<le> a_A b)) au
       \<and> mset (map (\<lambda>a. (a_Z a, a_A a)) au) = mset (map (\<lambda>r. (b_Z r, b_A r)) (t_rows T)))
   \<and> (\<exists>e' T au. beta_written (main stable_sort1 e') = Some T
         \<and> audit_written (main stable_sort1 e') = Some au
         \<and> map (\<lambda>a. (a_Z a, a_A a)) au \<noteq> map (\<lambda>r. (b_Z r, b_A r)) (t_rows T))"
proof (intro conjI allI impI)
  fix T au
  assume a: "beta_written (main sort1 e) = Some T \<and> audit_written (main sort1 e) = Some au"
  from main_written [of sort1 e T] a obtain beta rows' audit_rows where
    rl: "reaches_loop sort1 e beta rows' audit_rows" and T: "T = beta\<lparr>t_rows := rows'\<rparr>"
    by blast
  have au: "au = stable_sort_by audit_le audit_rows"
    using a unfolding main_after_loop [OF rl] by (auto split: if_splits)
  have le: "audit_le = (\<lambda>a b. a_Z a < a_Z b \<or> (a_Z a = a_Z b \<and> a_A a \<le> a_A b))"
    by (intro ext) (simp add: audit_le_def)
  show "sorted_wrt (\<lambda>a b. a_Z a < a_Z b \<or> (a_Z a = a_Z b \<and> a_A a \<le> a_A b)) au"
    using sorted_wrt_stable_sort_by [OF total_preorder_audit_le, of audit_rows]
    unfolding au le .
  have "map (\<lambda>a. (a_Z a, a_A a)) audit_rows = map (\<lambda>r. (b_Z r, b_A r)) rows'"
    using rl process_rows_keys unfolding reaches_loop_def by blast
  moreover have "mset (map (\<lambda>a. (a_Z a, a_A a)) au) = mset (map (\<lambda>a. (a_Z a, a_A a)) audit_rows)"
    unfolding au by (simp add: mset_stable_sort_by)
  ultimately show "mset (map (\<lambda>a. (a_Z a, a_A a)) au) = mset (map (\<lambda>r. (b_Z r, b_A r)) (t_rows T))"
    using T by simp
next
  have "beta_written (main stable_sort1 ex_env) = Some ex_table_out"
    "audit_written (main stable_sort1 ex_env) = Some [ex_audit_2, ex_audit_3, ex_audit_1]"
    using ex_main [of stable_sort1 False] by (simp_all add: ex_env_rc)
  moreover have "map (\<lambda>a. (a_Z a, a_A a)) [ex_audit_2, ex_audit_3, ex_audit_1]
        \<noteq> map (\<lambda>r. (b_Z r, b_A r)) (t_rows ex_table_out)"
    by (simp add: ex_run_defs)
  ultimately show "\<exists>e' T au. beta_written (main stable_sort1 e') = Some T
         \<and> audit_written (main stable_sort1 e') = Some au
         \<and> map (\<lambda>a. (a_Z a, a_A a)) au \<noteq> map (\<lambda>r. (b_Z r, b_A r)) (t_rows T)"
    by blast
qed

text \<open>Witness of C10: the audit of the example run, and the keys of its table.\<close>

theorem audit_sorted_by_key_witness:
  "beta_written (main stable_sort1 ex_env) = Some ex_table_out
   \<and> audit_written (main stable_sort1 ex_env) = Some [ex_audit_2, ex_audit_3, ex_audit_1]
   \<and> sorted_wrt (\<lambda>a b. a_Z a < a_Z b \<or> (a_Z a = a_Z b \<and> a_A a \<le> a_A b))
        [ex_audit_2, ex_audit_3, ex_audit_1]
   \<and> map (\<lambda>r. (b_Z r, b_A r)) (t_rows ex_table_out) = [(20, 40), (19, 44), (19, 44)]"
proof -
  have w: "beta_written (main stable_sort1 ex_env) = Some ex_table_out"
    "audit_written (main stable_sort1 ex_env) = Some [ex_audit_2, ex_audit_3, ex_audit_1]"
    using ex_main [of stable_sort1 False] by (simp_all add: ex_env_rc)
  have s: "sorted_wrt (\<lambda>a b. a_Z a < a_Z b \<or> (a_Z a = a_Z b \<and> a_A a \<le> a_A b))
        [ex_audit_2, ex_audit_3, ex_audit_1]"
    using audit_sorted_by_key [of stable_sort1 ex_env, THEN conjunct1, rule_format,
        OF conjI, OF w, THEN conjunct1] .
  have k: "map (\<lambda>r. (b_Z r, b_A r)) (t_rows ex_table_out) = [(20, 40), (19, 44), (19, 44)]"
    by (simp add: ex_run_defs)
  from w s k show ?thesis by blast
qed


subsection \<open>C7: the fraction column fills missing percentages\<close>

text \<open>
  Claim C7, as amended.  Normalisation keeps the rows whose Z, A and logft are numbers.
  In each kept row the percentage is the number in the percentage column if the frame
  has that column and the cell holds a number; otherwise, if the frame has a fraction
  column, it is the fraction times 100 (unknown when the fraction is no number);
  otherwise it is unknown.  The rule is applied row by row: a blank percentage is filled
  from the fraction also when other rows of the same file have a percentage.
\<close>

theorem fraction_fills_missing_percentage:
  assumes "normalize_candidates df = Inr cands" and "\<not> empty_frame df"
    and "out = rename canon_candidate df" and "kept = filter complete_row (f_rows out)"
  shows "length cands = length kept
         \<and> (\<forall>i < length kept.
               c_br_pct (cands ! i) =
                 (case (if ''br_pct'' \<in> set (f_columns out)
                        then as_num (get_cell (kept ! i) ''br_pct'') else None) of
                    Some pct \<Rightarrow> Some pct
                  | None \<Rightarrow>
                      if ''br'' \<in> set (f_columns out)
                      then (case as_num (get_cell (kept ! i) ''br'') of
                              Some br \<Rightarrow> Some (br * 100)
                            | None \<Rightarrow> None)
                      else None))"
proof -
  have c: "cands = map (candidate_of_row out) kept"
    using assms by (auto simp: normalize_candidates_def Let_def split: if_splits)
  show ?thesis
    unfolding c
    by (auto simp: candidate_of_row_def candidate_br_pct_def Let_def split: option.splits)
qed

text \<open>Witness of C7: the file with the two columns.\<close>

theorem fraction_fills_missing_percentage_witness:
  "normalize_candidates (read_csvs [(''c.csv'', ex_csv_c)]) =
     Inr [\<lparr>c_Z = 19, c_A = 44, c_logft = 5.3, c_mode = [], c_br_pct = Some 50,
           c_source = ''c.csv''\<rparr>,
          \<lparr>c_Z = 19, c_A = 44, c_logft = 6.1, c_mode = [], c_br_pct = Some 30,
           c_source = ''c.csv''\<rparr>]
   \<and> \<not> empty_frame (read_csvs [(''c.csv'', ex_csv_c)])
   \<and> length (filter complete_row
        (f_rows (rename canon_candidate (read_csvs [(''c.csv'', ex_csv_c)])))) = 2"
proof -
  note n = ex_norm_c
  have e: "\<not> empty_frame (read_csvs [(''c.csv'', ex_csv_c)])"
    unfolding ex_read_c by (simp add: empty_frame_def ex_csv_c_def)
  from fraction_fills_missing_percentage [OF n e refl refl, THEN conjunct1]
  have "length (filter complete_row
        (f_rows (rename canon_candidate (read_csvs [(''c.csv'', ex_csv_c)])))) = 2"
    by simp
  with n e show ?thesis by blast
qed

text \<open>Counterexample to C7 as stated: the file has a percentage column with the entry
  50 in its first row and a blank in its second; the second row is filled with
  0.3 times 100 from the fraction column.\<close>

theorem fraction_fills_blank_percentage_counterexample:
  "normalize_candidates (read_csvs [(''c.csv'', ex_csv_c)]) =
     Inr [\<lparr>c_Z = 19, c_A = 44, c_logft = 5.3, c_mode = [], c_br_pct = Some 50,
           c_source = ''c.csv''\<rparr>,
          \<lparr>c_Z = 19, c_A = 44, c_logft = 6.1, c_mode = [], c_br_pct = Some 30,
           c_source = ''c.csv''\<rparr>]"
  by (rule ex_norm_c)


subsection \<open>C9: the schema error\<close>

text \<open>
  Claim C9, as amended.  The primary table is there with its required columns, and
  \<open>col\<close> is one of Z, A and logft.  If at least one candidate row was read and no
  candidate file has a column that the synonym mapping turns into \<open>col\<close>, the run ends in
  the RuntimeError of the schema check and writes nothing.  The same holds if the
  candidates pass and the overrides file, being there, has no such column under its own
  mapping.  The check is made on the concatenation of all candidate files, not on each
  file.
\<close>

theorem schema_error_before_output:
  assumes "beta_file e = Some T" and "set required_columns \<subseteq> set (t_columns T)"
    and "col \<in> {''Z'', ''A'', ''logft''}"
  shows "(\<not> empty_frame (read_csvs (logft_files e))
            \<and> (\<forall>(path, f) \<in> set (logft_files e). col \<notin> canon_candidate ` set (header f)) \<longrightarrow>
          main sort1 e =
            \<lparr>ended = Raised RuntimeError, beta_written = None, audit_written = None\<rparr>)
         \<and> (\<forall>path f candidates.
               overrides_file e = Some (path, f) \<and> col \<notin> canon_override ` set (header f)
               \<and> (if \<not> empty_frame (read_csvs (logft_files e))
                   then normalize_candidates (read_csvs (logft_files e)) else Inr [])
                  = Inr candidates \<longrightarrow>
               main sort1 e =
                 \<lparr>ended = Raised RuntimeError, beta_written = None, audit_written = None\<rparr>)"
proof (intro conjI allI impI)
  assume a: "\<not> empty_frame (read_csvs (logft_files e))
            \<and> (\<forall>(path, f) \<in> set (logft_files e). col \<notin> canon_candidate ` set (header f))"
  then have ne: "logft_files e \<noteq> []" by (auto simp: read_csvs_Nil empty_frame_def)
  have "col \<noteq> ''__file__''" using assms(3) by auto
  then have "col \<notin> canon_candidate ` set (f_columns (read_csvs (logft_files e)))"
    using a unfolding columns_read_csvs [OF ne] by (auto simp: canon_candidate_file)
  from normalize_candidates_missing [OF _ assms(3) this] a
  have "normalize_candidates (read_csvs (logft_files e)) = Inl RuntimeError" by blast
  then show "main sort1 e =
            \<lparr>ended = Raised RuntimeError, beta_written = None, audit_written = None\<rparr>"
    using assms(1,2) a by (simp add: main_def Let_def)
next
  fix path f candidates
  assume a: "overrides_file e = Some (path, f) \<and> col \<notin> canon_override ` set (header f)
               \<and> (if \<not> empty_frame (read_csvs (logft_files e))
                   then normalize_candidates (read_csvs (logft_files e)) else Inr [])
                  = Inr candidates"
  then have "normalize_overrides (overrides_file e) = Inl RuntimeError"
    using normalize_overrides_missing [OF assms(3)] by simp
  then show "main sort1 e =
            \<lparr>ended = Raised RuntimeError, beta_written = None, audit_written = None\<rparr>"
    using assms(1,2) a by (auto simp: main_def Let_def)
qed

text \<open>Witness of C9: the only candidate file has no Z column.\<close>

theorem schema_error_before_output_witness:
  "beta_file (ex_env\<lparr>logft_files := [(''b.csv'', ex_csv_b)]\<rparr>) = Some ex_table
   \<and> set required_columns \<subseteq> set (t_columns ex_table)
   \<and> \<not> empty_frame (read_csvs [(''b.csv'', ex_csv_b)])
   \<and> ''Z'' \<notin> canon_candidate ` set (header ex_csv_b)
   \<and> main stable_sort1 (ex_env\<lparr>logft_files := [(''b.csv'', ex_csv_b)]\<rparr>) =
       \<lparr>ended = Raised RuntimeError, beta_written = None, audit_written = None\<rparr>"
proof -
  let ?e = "ex_env\<lparr>logft_files := [(''b.csv'', ex_csv_b)]\<rparr>"
  have b: "beta_file ?e = Some ex_table" by (simp add: ex_env_def)
  have r: "set required_columns \<subseteq> set (t_columns ex_table)"
    by (simp add: required_columns_def ex_table_def)
  have c: "''Z'' \<in> {''Z'', ''A'', ''logft''}" by simp
  have ne: "\<not> empty_frame (read_csvs [(''b.csv'', ex_csv_b)])"
    by (simp add: read_csvs_def stable_sort_by_def with_file_def union_columns_def
          ex_csv_b_def empty_frame_def)
  have z: "''Z'' \<notin> canon_candidate ` set (header ex_csv_b)"
    by (simp add: ex_csv_b_def canon_candidate_def str_defs)
  have "main stable_sort1 ?e =
       \<lparr>ended = Raised RuntimeError, beta_written = None, audit_written = None\<rparr>"
    using schema_error_before_output [OF b r c, of stable_sort1, THEN conjunct1] ne z
    by simp
  with b r ne z show ?thesis by blast
qed

text \<open>Counterexample to C9 as stated: the candidate file \<^verbatim>\<open>b.csv\<close> has no Z column, but
  \<^verbatim>\<open>a.csv\<close> has one.  The run raises nothing: the row of \<^verbatim>\<open>b.csv\<close> has NaN for Z in the
  concatenated frame and is dropped, and the run exits with 0 and writes both files.\<close>

theorem schema_error_counterexample:
  "''Z'' \<notin> canon_candidate ` set (header ex_csv_b)
   \<and> main stable_sort1 (ex_env\<lparr>logft_files := [(''b.csv'', ex_csv_b), (''a.csv'', ex_csv_a)]\<rparr>) =
       \<lparr>ended = Exit 0, beta_written = Some ex_table_out,
        audit_written = Some [ex_audit_2, ex_audit_3, ex_audit_1]\<rparr>"
proof
  show "''Z'' \<notin> canon_candidate ` set (header ex_csv_b)"
    by (simp add: ex_csv_b_def canon_candidate_def str_defs)
  show "main stable_sort1 (ex_env\<lparr>logft_files := [(''b.csv'', ex_csv_b), (''a.csv'', ex_csv_a)]\<rparr>) =
       \<lparr>ended = Exit 0, beta_written = Some ex_table_out,
        audit_written = Some [ex_audit_2, ex_audit_3, ex_audit_1]\<rparr>"
    unfolding main_after_loop [OF ex_reaches_ab]
    by (simp add: ex_sorted_audit ex_table_out_def ex_env_def)
qed

subsection \<open>C5: ties and the order of the index\<close>

text \<open>
  In the branching tie-break the sort is stable, so among retained candidates with the
  winner's percentage and logft the earliest wins: every retained candidate before the
  winner has a strictly worse key.
\<close>

lemma highest_br_winner_is_earliest:
  assumes "filter (\<lambda>r. o_Z r = Z \<and> o_A r = A) overrides = []"
    and "matching Z A candidates \<noteq> []"
    and "kept = retained beta_mode (matching Z A candidates)"
    and "\<exists>c \<in> set kept. c_br_pct c \<noteq> None"
  shows "\<exists>ps w ss. kept = ps @ w # ss
           \<and> choose_logft_for_row sort1 Z A beta_mode candidates overrides =
               Inr (Some (c_logft w), prov_highest_br w)
           \<and> (\<forall>y \<in> set ps. \<not> br_logft_le y w) \<and> (\<forall>y \<in> set ss. br_logft_le w y)"
proof -
  have ne: "kept \<noteq> []" using assms(2,3) by (simp add: retained_nonempty)
  have "choose_logft_for_row sort1 Z A beta_mode candidates overrides =
          Inr (Some (c_logft (hd (stable_sort_by br_logft_le kept))),
               prov_highest_br (hd (stable_sort_by br_logft_le kept)))"
    using assms(1,2,4) ne
    by (simp add: choose_logft_for_row_def Let_def assms(3) [symmetric] iloc0_stable_sort_by)
  with hd_stable_sort_by [OF total_preorder_br_logft_le ne] show ?thesis by metis
qed

text \<open>
  Claim C5 fails in the fallback.  Four candidates of one nuclide, none with a
  percentage, stand in the index in the order \<^verbatim>\<open>s1\<close> (logft 6.1), \<^verbatim>\<open>s2\<close> (6.5), \<^verbatim>\<open>s3\<close> (5.3),
  \<^verbatim>\<open>s4\<close> (5.3).  The earliest candidate of smallest logft is \<^verbatim>\<open>s3\<close>, and a stable sort
  picks it.  The network of numpy's vectorised sort exchanges lane 0 with lane 3 and lane
  1 with lane 2 in its second step, which brings \<^verbatim>\<open>s4\<close> in front of \<^verbatim>\<open>s3\<close>, and picks
  \<^verbatim>\<open>s4\<close>.  Both sorts return the rows in ascending order of logft; the resolved logft is
  the same, the source in the audit is not.  On two tied rows alone the network changes
  nothing.
\<close>

theorem min_logft_tie_follows_the_sort:
  "sorts_by_logft stable_sort1 \<and> sorts_by_logft simd_sort1
   \<and> choose_logft_for_row stable_sort1 19 44 ''beta-'' [ex_t1, ex_t2, ex_t3, ex_t4] [] =
       Inr (Some 5.3,
            \<lparr>p_method = M_candidate_min_logft, p_source = ''s3'', p_cand_mode = ''beta-'',
             p_br_pct_used = None, p_note = []\<rparr>)
   \<and> choose_logft_for_row simd_sort1 19 44 ''beta-'' [ex_t1, ex_t2, ex_t3, ex_t4] [] =
       Inr (Some 5.3,
            \<lparr>p_method = M_candidate_min_logft, p_source = ''s4'', p_cand_mode = ''beta-'',
             p_br_pct_used = None, p_note = []\<rparr>)
   \<and> simd_sort1 [ex_t1, ex_t2, ex_t3, ex_t4] = [ex_t4, ex_t3, ex_t1, ex_t2]
   \<and> choose_logft_for_row simd_sort1 19 44 ''beta-'' [ex_k3, ex_k4] [] =
       Inr (Some 5.3,
            \<lparr>p_method = M_candidate_min_logft, p_source = ''a.csv'', p_cand_mode = ''beta-'',
             p_br_pct_used = None, p_note = []\<rparr>)"
proof -
  have r4: "retained ''beta-'' (matching 19 44 [ex_t1, ex_t2, ex_t3, ex_t4]) = [ex_t1, ex_t2, ex_t3, ex_t4]"
    by (simp add: matching_def retained_def mode_match_score_def str_defs ex_t_defs)
  have r2: "retained ''beta-'' (matching 19 44 [ex_k3, ex_k4]) = [ex_k3, ex_k4]"
    by (simp add: matching_def retained_def mode_match_score_def str_defs ex_defs)
  have m4: "matching 19 44 [ex_t1, ex_t2, ex_t3, ex_t4] \<noteq> []" by (simp add: matching_def ex_t_defs)
  have m2: "matching 19 44 [ex_k3, ex_k4] \<noteq> []" by (simp add: matching_def ex_defs)
  have st: "stable_sort1 [ex_t1, ex_t2, ex_t3, ex_t4] = [ex_t3, ex_t4, ex_t1, ex_t2]"
    by (simp add: stable_sort1_def stable_sort_by_def ex_t_defs)
  have nb4: "\<not> (\<exists>c \<in> set [ex_t1, ex_t2, ex_t3, ex_t4]. c_br_pct c \<noteq> None)"
    by (simp add: ex_t_defs)
  have nb2: "\<not> (\<exists>c \<in> set [ex_k3, ex_k4]. c_br_pct c \<noteq> None)" by (simp add: ex_defs)
  have a: "choose_logft_for_row stable_sort1 19 44 ''beta-'' [ex_t1, ex_t2, ex_t3, ex_t4] [] =
       Inr (Some (c_logft ex_t3), prov_min_logft ex_t3)"
    using m4 nb4 by (simp add: choose_logft_for_row_def Let_def r4 st iloc0_def del: set_simps)
  have b: "choose_logft_for_row simd_sort1 19 44 ''beta-'' [ex_t1, ex_t2, ex_t3, ex_t4] [] =
       Inr (Some (c_logft ex_t4), prov_min_logft ex_t4)"
    using m4 nb4 by (simp add: choose_logft_for_row_def Let_def r4 simd_four iloc0_def del: set_simps)
  have c: "choose_logft_for_row simd_sort1 19 44 ''beta-'' [ex_k3, ex_k4] [] =
       Inr (Some (c_logft ex_k3), prov_min_logft ex_k3)"
    using m2 nb2 by (simp add: choose_logft_for_row_def Let_def r2 simd_two iloc0_def del: set_simps)
  show ?thesis
    using a b c simd_four sorts_by_logft_stable_sort1 sorts_by_logft_simd_sort1
    by (simp add: prov_min_logft_def ex_t_defs ex_defs)
qed

end
